theory Spec2Isabelle
  imports Complex_Main "HOL-Library.Char_ord" "HOL-Library.List_Lexorder" "HOL-Library.Option_ord"
begin

section \<open>downloader/base.py: options, media items and the handler contract\<close>

text \<open>
  Python strings are modelled as \<open>string\<close> (lists of 8-bit characters), Python's
  unbounded \<open>int\<close> as \<open>int\<close>, an \<open>Optional[T]\<close> field as \<open>T option\<close>. The float
  \<open>retry_interval\<close> is only stored, never computed with; it is carried as a \<open>real\<close>.
\<close>

record DownloadOptions =
  download_images :: bool
  download_videos :: bool
  download_compressed :: bool
  download_documents :: bool
  max_retries :: int
  retry_interval :: real
  chunk_size :: int
  timeout_seconds :: int
  min_file_size :: int
  max_file_size :: int
  date_from :: "string option"
  date_to :: "string option"

definition default_options :: DownloadOptions where
  "default_options =
     \<lparr>download_images = True, download_videos = True, download_compressed = True,
      download_documents = True, max_retries = 3, retry_interval = 2, chunk_size = 1048576,
      timeout_seconds = 30, min_file_size = 0, max_file_size = 0, date_from = None,
      date_to = None\<rparr>"

record MediaItem =
  url :: string
  filename :: string
  file_type :: string
  item_size :: "int option"
  post_id :: "string option"
  user_id :: "string option"
  published_date :: "string option"

text \<open>
  An instance of a handler class, as \<open>BaseDownloader.__init__\<close> leaves it. The keyword
  arguments beyond folder and options (the callback hooks and the translation function)
  are carried as one opaque value of type \<open>'k\<close>; \<open>cls\<close> names the class the instance
  was made from.
\<close>

record 'k BaseDownloader =
  cls :: string
  download_folder :: string
  options :: DownloadOptions
  kwargs :: 'k
  cancel_event :: bool
  total_files :: int
  completed_files :: int
  failed_files :: "string list"
  skipped_files :: "string list"

definition IMAGE_EXTENSIONS :: "string list" where
  "IMAGE_EXTENSIONS = [''.jpg'', ''.jpeg'', ''.png'', ''.gif'', ''.bmp'', ''.tiff'', ''.webp'']"

definition VIDEO_EXTENSIONS :: "string list" where
  "VIDEO_EXTENSIONS =
     [''.mp4'', ''.mkv'', ''.webm'', ''.mov'', ''.avi'', ''.flv'', ''.wmv'', ''.m4v'']"

definition DOCUMENT_EXTENSIONS :: "string list" where
  "DOCUMENT_EXTENSIONS =
     [''.pdf'', ''.doc'', ''.docx'', ''.xls'', ''.xlsx'', ''.ppt'', ''.pptx'']"

definition COMPRESSED_EXTENSIONS :: "string list" where
  "COMPRESSED_EXTENSIONS = [''.zip'', ''.rar'', ''.7z'', ''.tar'', ''.gz'']"

text \<open>\<open>s.rsplit('.', 1)[-1]\<close>: what follows the last dot (all of \<open>s\<close> without a dot).\<close>

definition rsplit_last :: "string \<Rightarrow> string" where
  "rsplit_last s = rev (takeWhile (\<lambda>c. c \<noteq> CHR ''.'') (rev s))"

text \<open>
  \<open>get_file_type\<close>. \<open>str.lower\<close> is a Python builtin whose case mapping covers all of
  Unicode; it is the parameter \<open>str_lower\<close> of the functions that reach it.
\<close>

definition get_file_type :: "(string \<Rightarrow> string) \<Rightarrow> string \<Rightarrow> string" where
  "get_file_type str_lower fname =
     (let ext = (if CHR ''.'' \<in> set fname then CHR ''.'' # str_lower (rsplit_last fname)
                 else [])
      in if ext \<in> set IMAGE_EXTENSIONS then ''image''
         else if ext \<in> set VIDEO_EXTENSIONS then ''video''
         else if ext \<in> set DOCUMENT_EXTENSIONS then ''document''
         else if ext \<in> set COMPRESSED_EXTENSIONS then ''compressed''
         else ''other'')"

text \<open>
  \<open>media_item.file_type or self.get_file_type(media_item.filename)\<close>: an empty string is
  falsy, so the tag is derived from the file name only when the item carries none.
\<close>

definition effective_file_type :: "(string \<Rightarrow> string) \<Rightarrow> MediaItem \<Rightarrow> string" where
  "effective_file_type str_lower media_item =
     (if file_type media_item \<noteq> [] then file_type media_item
      else get_file_type str_lower (filename media_item))"

text \<open>
  \<open>should_download_file\<close>, statement by statement. The guard \<open>if media_item.size:\<close> is
  Python truthiness on an \<open>Optional[int]\<close>: it fails for \<open>None\<close> and for \<open>0\<close>.
\<close>

definition should_download_file ::
  "(string \<Rightarrow> string) \<Rightarrow> DownloadOptions \<Rightarrow> MediaItem \<Rightarrow> bool" where
  "should_download_file str_lower opts media_item =
     (let ft = effective_file_type str_lower media_item in
      if ft = ''image'' \<and> \<not> download_images opts then False
      else if ft = ''video'' \<and> \<not> download_videos opts then False
      else if ft = ''document'' \<and> \<not> download_documents opts then False
      else if ft = ''compressed'' \<and> \<not> download_compressed opts then False
      else (case item_size media_item of
              None \<Rightarrow> True
            | Some sz \<Rightarrow>
                if sz \<noteq> 0 then
                  (if min_file_size opts > 0 \<and> sz < min_file_size opts then False
                   else if max_file_size opts > 0 \<and> sz > max_file_size opts then False
                   else True)
                else True))"

text \<open>
  \<open>re.sub(r'[<>:"/\\|?*]', '_', filename)\<close>: every character of the class is replaced
  by an underscore, every other character is copied.
\<close>

definition invalid_chars :: "char list" where
  "invalid_chars =
     [CHR ''<'', CHR ''>'', CHR '':'', CHR 0x22, CHR ''/'', CHR 0x5C, CHR ''|'', CHR ''?'',
      CHR ''*'']"

definition sanitize_char :: "char \<Rightarrow> char" where
  "sanitize_char c = (if c \<in> set invalid_chars then CHR ''_'' else c)"

definition sanitize_filename :: "string \<Rightarrow> string" where
  "sanitize_filename fname = map sanitize_char fname"

section \<open>downloader/factory.py: the registry and the selector\<close>

text \<open>
  A handler class: its name and the two abstract methods the factory calls on an
  instance. \<open>supports_url\<close> takes the instance, since the factory asks a constructed
  instance, not the class.
\<close>

record 'k downloader_class =
  cls_name :: string
  supports_url :: "'k BaseDownloader \<Rightarrow> string \<Rightarrow> bool"
  get_site_name :: "'k BaseDownloader \<Rightarrow> string"

text \<open>\<open>downloader_class(download_folder=..., options=..., **kwargs)\<close>.\<close>

definition construct ::
  "'k downloader_class \<Rightarrow> string \<Rightarrow> DownloadOptions option \<Rightarrow> 'k \<Rightarrow> 'k BaseDownloader" where
  "construct c folder opts kw =
     \<lparr>cls = cls_name c, download_folder = folder,
      options = (case opts of None \<Rightarrow> default_options | Some v \<Rightarrow> v),
      kwargs = kw, cancel_event = False, total_files = 0, completed_files = 0,
      failed_files = [], skipped_files = []\<rparr>"

text \<open>
  The two fallback modules are imported inside \<open>get_downloader\<close>, under
  \<open>except ImportError\<close>. Neither \<open>downloader/ytdlp_adapter.py\<close> nor
  \<open>downloader/generic.py\<close> is among the sources, so what an import gives is a
  parameter: \<open>ytdlp_adapter = None\<close> is the ImportError, \<open>Some f\<close> gives the
  \<open>supports_url\<close> of \<open>YtDlpDownloader\<close>; \<open>generic_module\<close> says whether
  \<open>GenericDownloader\<close> can be imported.
\<close>

record ('k, 'y) YtDlpDownloader = "'k BaseDownloader" +
  ytdlp_options :: "'y option"

record ('k, 'y) modules =
  ytdlp_adapter :: "(('k, 'y) YtDlpDownloader \<Rightarrow> string \<Rightarrow> bool) option"
  generic_module :: bool




text \<open>\<open>register\<close>: the new registry (the class itself is returned unchanged).\<close>

definition register :: "'k downloader_class \<Rightarrow> 'k downloader_class list \<Rightarrow> 'k downloader_class list" where
  "register downloader_class classes =
     (if downloader_class \<notin> set classes then classes @ [downloader_class] else classes)"

definition clear_registry :: "'k downloader_class list" where
  "clear_registry = []"




text \<open>
  \<open>get_supported_sites\<close>: one minimal instance per class (empty folder, no options, no
  keyword arguments, written \<open>kw0\<close>), then the yt-dlp line when the module imports.
\<close>

definition get_supported_sites ::
  "('k, 'y) modules \<Rightarrow> 'k \<Rightarrow> 'k downloader_class list \<Rightarrow> string list" where
  "get_supported_sites env kw0 classes =
     map (\<lambda>c. get_site_name c (construct c [] None kw0)) classes
     @ (if ytdlp_adapter env \<noteq> None then [''Universal (yt-dlp) - 1000+ sites''] else [])"

section \<open>downloader/models.py: jobs and events\<close>

text \<open>
  Modelled from the spec: \<open>downloader/models.py\<close> (\<open>JobStatus\<close>, \<open>DownloadEventType\<close>,
  \<open>DownloadJob\<close>, \<open>DownloadEvent\<close>) is not among the sources. The specification lists
  the seven statuses \<open>pending|downloading|paused|completed|failed|cancelled|skipped\<close> and
  describes the event type as a free-form tag; the fields of a job and of an event are
  the ones \<open>history.py\<close> reads and writes. \<open>JobStatus(text)\<close> raises ValueError on a
  text that names no status, which is \<open>None\<close> of \<open>JobStatus_of_value\<close>.
\<close>

datatype JobStatus = PENDING | DOWNLOADING | PAUSED | COMPLETED | FAILED | CANCELLED | SKIPPED

fun JobStatus_value :: "JobStatus \<Rightarrow> string" where
  "JobStatus_value PENDING = ''pending''"
| "JobStatus_value DOWNLOADING = ''downloading''"
| "JobStatus_value PAUSED = ''paused''"
| "JobStatus_value COMPLETED = ''completed''"
| "JobStatus_value FAILED = ''failed''"
| "JobStatus_value CANCELLED = ''cancelled''"
| "JobStatus_value SKIPPED = ''skipped''"

definition JobStatus_of_value :: "string \<Rightarrow> JobStatus option" where
  "JobStatus_of_value text =
     List.find (\<lambda>st. JobStatus_value st = text)
       [PENDING, DOWNLOADING, PAUSED, COMPLETED, FAILED, CANCELLED, SKIPPED]"

datatype DownloadEventType = DownloadEventType (event_type_value: string)

text \<open>
  The values the \<open>json\<close> module reads and writes. Floats are left out: no operation here
  looks inside a snapshot or a payload.
\<close>

datatype json =
    JNull
  | JBool bool
  | JInt int
  | JString string
  | JList "json list"
  | JDict "(string \<times> json) list"

record DownloadJob =
  job_ident :: string
  job_url :: string
  engine :: string
  status :: JobStatus
  created_at :: string
  started_at :: "string option"
  finished_at :: "string option"
  total_items :: int
  completed_items :: int
  failed_items :: int
  skipped_items :: int
  output_folder :: string
  error_message :: "string option"
  options_snapshot :: json

record DownloadEvent =
  event_type :: DownloadEventType
  event_job_id :: string
  timestamp :: string
  payload :: json

text \<open>
  The exceptions the operations below raise or pass on; \<open>OtherError\<close> carries the class
  name of any other exception.
\<close>

datatype py_error =
    ValueError
  | JSONDecodeError
  | RecursionError
  | OverflowError
  | OperationalError
  | OtherError string

section \<open>downloader/history.py: the history store\<close>

text \<open>
  The two tables, column by column; a nullable column is an \<open>option\<close>. Each table is the
  list of its rows in rowid order. \<open>events_seq\<close> is the AUTOINCREMENT counter of the
  events table (the largest id ever given out). TEXT values are compared as SQLite's
  BINARY collation does, byte by byte, which is the lexicographic order on \<open>string\<close>;
  NULL sorts before every value, as \<open>None\<close> does in the order on \<open>option\<close>.

  Every operation of \<open>DownloadHistoryDB\<close> takes the lock, opens a connection, runs its
  statements and commits; an exception leaves the work uncommitted. The model gives each
  operation the store before and returns the error raised or the store after. SQLite
  leaves the order of rows with equal sort keys open; the model takes the sort to be
  stable, so that such rows stay in rowid order.
\<close>

record job_row =
  row_job_id :: string
  row_url :: string
  row_engine :: string
  row_status :: string
  row_created_at :: string
  row_started_at :: "string option"
  row_finished_at :: "string option"
  row_total_items :: int
  row_completed_items :: int
  row_failed_items :: int
  row_skipped_items :: int
  row_output_folder :: "string option"
  row_error_message :: "string option"
  options_json :: "string option"

record event_row =
  row_id :: nat
  ev_job_id :: string
  ev_timestamp :: string
  ev_type :: string
  payload_json :: "string option"

record history_db =
  jobs :: "job_row list"
  events :: "event_row list"
  events_seq :: nat

text \<open>
  The values bound to the \<open>?\<close> of a statement. The \<open>sqlite3\<close> module binds a Python
  \<open>int\<close> as a signed 64-bit INTEGER and raises OverflowError for an \<open>int\<close> outside that
  range; the statement does not run then.
\<close>

datatype sql_value = SqlNull | SqlInt int | SqlText string

definition int64 :: "int \<Rightarrow> bool" where
  "int64 v = (- (2 ^ 63) \<le> v \<and> v < 2 ^ 63)"

fun bind_error :: "sql_value list \<Rightarrow> py_error option" where
  "bind_error [] = None"
| "bind_error (SqlInt v # vs) = (if int64 v then bind_error vs else Some OverflowError)"
| "bind_error (SqlNull # vs) = bind_error vs"
| "bind_error (SqlText s # vs) = bind_error vs"

definition sql_text_option :: "string option \<Rightarrow> sql_value" where
  "sql_text_option column = (case column of None \<Rightarrow> SqlNull | Some s \<Rightarrow> SqlText s)"

text \<open>
  What is not in \<open>history.py\<close> is a parameter of its operations, gathered in one record:
  \<^item> \<open>json_dumps\<close> and \<open>json_loads\<close>, the two functions of the \<open>json\<close> module, each
    returning its value or the exception it raises;
  \<^item> \<open>sqlite3_connect\<close>, the exception \<open>sqlite3.connect\<close> raises on the database path,
    if any;
  \<^item> \<open>max_variable_number\<close>, the number of \<open>?\<close> SQLite accepts in one statement, a
    constant of the SQLite build (999 before version 3.32, 32766 since, more in the
    builds of some distributions);
  \<^item> \<open>sqlite3_raises\<close>, the exception, if any, that the \<open>sqlite3\<close> calls of an operation
    raise after the connection is open, for another reason than the two written out
    below (an integer outside the 64-bit range, too many \<open>?\<close>). It depends on the
    operation, the values to bind and the store: a stored text that is not valid UTF-8
    makes the fetch of its row raise OperationalError, a text that cannot be encoded, a
    value above the length limit of the build, a full disk or a damaged file make a
    statement or the commit raise.

  A Python \<open>str\<close> and a stored TEXT are both given by their UTF-8 bytes, as a \<open>string\<close>.
\<close>

datatype operation =
    SAVE_JOB
  | APPEND_EVENT
  | LIST_JOBS
  | GET_JOB
  | GET_JOB_EVENTS
  | DELETE_JOB
  | CLEAR_COMPLETED_JOBS

record py_env =
  json_dumps :: "json \<Rightarrow> py_error + string"
  json_loads :: "string \<Rightarrow> py_error + json"
  sqlite3_connect :: "py_error option"
  max_variable_number :: nat
  sqlite3_raises :: "operation \<Rightarrow> sql_value list \<Rightarrow> history_db \<Rightarrow> py_error option"

text \<open>
  The exception, if any, of the \<open>sqlite3\<close> calls of an operation that binds \<open>params\<close>
  (\<open>cursor.execute(sql, params)\<close>, the fetch, the commit): what \<open>sqlite3_raises\<close> tells,
  and otherwise OverflowError when an integer to bind is out of range.
\<close>

definition execute ::
  "py_env \<Rightarrow> operation \<Rightarrow> sql_value list \<Rightarrow> history_db \<Rightarrow> py_error option" where
  "execute env op params db =
     (case sqlite3_raises env op params db of
        Some e \<Rightarrow> Some e
      | None \<Rightarrow> bind_error params)"

text \<open>\<open>_init_db\<close> on a path with no database file: both tables exist and are empty.\<close>

definition init_db :: history_db where
  "init_db = \<lparr>jobs = [], events = [], events_seq = 0\<rparr>"

text \<open>
  \<open>ORDER BY key ASC\<close>, \<open>ORDER BY key DESC\<close>, \<open>LIMIT n\<close> and \<open>OFFSET n\<close>; a negative
  limit means no limit, a negative offset means none. The operations reach \<open>LIMIT\<close> and
  \<open>OFFSET\<close> only with a number that was bound, which \<open>execute\<close> lets through only
  within the 64-bit range.
\<close>

definition order_by_asc :: "('a \<Rightarrow> 'b::linorder) \<Rightarrow> 'a list \<Rightarrow> 'a list" where
  "order_by_asc key rows = sort_key key rows"

definition order_by_desc :: "('a \<Rightarrow> 'b::linorder) \<Rightarrow> 'a list \<Rightarrow> 'a list" where
  "order_by_desc key rows = rev (sort_key key (rev rows))"

definition sql_limit :: "int \<Rightarrow> 'a list \<Rightarrow> 'a list" where
  "sql_limit n rows = (if n < 0 then rows else take (nat n) rows)"

definition sql_offset :: "int \<Rightarrow> 'a list \<Rightarrow> 'a list" where
  "sql_offset n rows = (if n < 0 then rows else drop (nat n) rows)"

text \<open>
  The tuple of values \<open>save_job\<close> binds to its statement, as a row and as parameters;
  \<open>text\<close> is what \<open>json.dumps(job.options_snapshot)\<close> returned.
\<close>

definition job_to_row :: "string \<Rightarrow> DownloadJob \<Rightarrow> job_row" where
  "job_to_row text job =
     \<lparr>row_job_id = job_ident job, row_url = job_url job, row_engine = engine job,
      row_status = JobStatus_value (status job), row_created_at = created_at job,
      row_started_at = started_at job, row_finished_at = finished_at job,
      row_total_items = total_items job, row_completed_items = completed_items job,
      row_failed_items = failed_items job, row_skipped_items = skipped_items job,
      row_output_folder = Some (output_folder job), row_error_message = error_message job,
      options_json = Some text\<rparr>"

definition row_params :: "job_row \<Rightarrow> sql_value list" where
  "row_params row =
     [SqlText (row_job_id row), SqlText (row_url row), SqlText (row_engine row),
      SqlText (row_status row), SqlText (row_created_at row),
      sql_text_option (row_started_at row), sql_text_option (row_finished_at row),
      SqlInt (row_total_items row), SqlInt (row_completed_items row),
      SqlInt (row_failed_items row), SqlInt (row_skipped_items row),
      sql_text_option (row_output_folder row), sql_text_option (row_error_message row),
      sql_text_option (options_json row)]"

text \<open>
  \<open>save_job\<close>: the connection is opened, the snapshot is serialized, the statement is
  executed. \<open>INSERT OR REPLACE\<close> on the primary key \<open>job_id\<close> deletes a row with the same
  key and inserts the new row with a rowid above every remaining one, so it stands last.
  An exception leaves the store as it was.
\<close>

definition save_job :: "py_env \<Rightarrow> DownloadJob \<Rightarrow> history_db \<Rightarrow> py_error + history_db" where
  "save_job env job db =
     (case sqlite3_connect env of
        Some e \<Rightarrow> Inl e
      | None \<Rightarrow>
          (case json_dumps env (options_snapshot job) of
             Inl e \<Rightarrow> Inl e
           | Inr text \<Rightarrow>
               (case execute env SAVE_JOB (row_params (job_to_row text job)) db of
                  Some e \<Rightarrow> Inl e
                | None \<Rightarrow>
                    Inr (db\<lparr>jobs := filter (\<lambda>r. row_job_id r \<noteq> job_ident job) (jobs db)
                                      @ [job_to_row text job]\<rparr>))))"

definition max_row_id :: "event_row list \<Rightarrow> nat" where
  "max_row_id rows = foldr (\<lambda>r m. max (row_id r) m) rows 0"

definition append_event :: "py_env \<Rightarrow> DownloadEvent \<Rightarrow> history_db \<Rightarrow> py_error + history_db" where
  "append_event env event db =
     (case sqlite3_connect env of
        Some e \<Rightarrow> Inl e
      | None \<Rightarrow>
          (case json_dumps env (payload event) of
             Inl e \<Rightarrow> Inl e
           | Inr text \<Rightarrow>
               (case execute env APPEND_EVENT
                       [SqlText (event_job_id event), SqlText (timestamp event),
                        SqlText (event_type_value (event_type event)), SqlText text] db of
                  Some e \<Rightarrow> Inl e
                | None \<Rightarrow>
                    (let new_id = Suc (max (events_seq db) (max_row_id (events db)))
                     in Inr (db\<lparr>events := events db @
                                 [\<lparr>row_id = new_id, ev_job_id = event_job_id event,
                                   ev_timestamp = timestamp event,
                                   ev_type = event_type_value (event_type event),
                                   payload_json = Some text\<rparr>],
                               events_seq := new_id\<rparr>)))))"

text \<open>A sequence of \<open>append_event\<close> calls, first to last, up to the first that raises.\<close>

fun append_events :: "py_env \<Rightarrow> DownloadEvent list \<Rightarrow> history_db \<Rightarrow> py_error + history_db" where
  "append_events env [] db = Inr db"
| "append_events env (e # es) db =
     (case append_event env e db of
        Inl err \<Rightarrow> Inl err
      | Inr db' \<Rightarrow> append_events env es db')"

text \<open>
  The stored text of a snapshot or payload, read back: \<open>{}\<close> when the column is NULL or
  empty (both falsy), \<open>{}\<close> when \<open>json.loads\<close> raises JSONDecodeError (\<open>except
  json.JSONDecodeError: pass\<close>); any other exception of \<open>json.loads\<close> is not caught.
\<close>

definition read_json :: "py_env \<Rightarrow> string option \<Rightarrow> py_error + json" where
  "read_json env column =
     (case column of
        None \<Rightarrow> Inr (JDict [])
      | Some text \<Rightarrow>
          if text = [] then Inr (JDict [])
          else (case json_loads env text of
                  Inr v \<Rightarrow> Inr v
                | Inl e \<Rightarrow> if e = JSONDecodeError then Inr (JDict []) else Inl e))"

text \<open>The call \<open>DownloadJob(id=row['job_id'], ...)\<close> of \<open>_row_to_job\<close>.\<close>

definition job_of_row :: "job_row \<Rightarrow> JobStatus \<Rightarrow> json \<Rightarrow> DownloadJob" where
  "job_of_row row st opts =
     \<lparr>job_ident = row_job_id row, job_url = row_url row, engine = row_engine row,
      status = st, created_at = row_created_at row,
      started_at = row_started_at row, finished_at = row_finished_at row,
      total_items = row_total_items row,
      completed_items = row_completed_items row,
      failed_items = row_failed_items row,
      skipped_items = row_skipped_items row,
      output_folder = (case row_output_folder row of None \<Rightarrow> [] | Some s \<Rightarrow> s),
      error_message = row_error_message row, options_snapshot = opts\<rparr>"

text \<open>
  \<open>_row_to_job\<close>: the options are read first; \<open>JobStatus(row['status'])\<close> raises
  ValueError when the text names no status.
\<close>

definition row_to_job :: "py_env \<Rightarrow> job_row \<Rightarrow> py_error + DownloadJob" where
  "row_to_job env row =
     (case read_json env (options_json row) of
        Inl e \<Rightarrow> Inl e
      | Inr opts \<Rightarrow>
          (case JobStatus_of_value (row_status row) of
             None \<Rightarrow> Inl ValueError
           | Some st \<Rightarrow> Inr (job_of_row row st opts)))"

definition row_to_event :: "py_env \<Rightarrow> event_row \<Rightarrow> py_error + DownloadEvent" where
  "row_to_event env row =
     (case read_json env (payload_json row) of
        Inl e \<Rightarrow> Inl e
      | Inr p \<Rightarrow>
          Inr \<lparr>event_type = DownloadEventType (ev_type row), event_job_id = ev_job_id row,
               timestamp = ev_timestamp row, payload = p\<rparr>)"

text \<open>The list comprehension over the fetched rows: the first row that raises ends it.\<close>

fun convert_rows :: "('r \<Rightarrow> py_error + 'a) \<Rightarrow> 'r list \<Rightarrow> py_error + 'a list" where
  "convert_rows conv [] = Inr []"
| "convert_rows conv (row # rows) =
     (case conv row of
        Inl e \<Rightarrow> Inl e
      | Inr x \<Rightarrow> (case convert_rows conv rows of Inl e \<Rightarrow> Inl e | Inr xs \<Rightarrow> Inr (x # xs)))"

text \<open>The two SELECT statements of \<open>list_jobs\<close>; \<open>st\<close> is the bound status text, if any.\<close>

definition select_jobs :: "history_db \<Rightarrow> int \<Rightarrow> string option \<Rightarrow> int \<Rightarrow> job_row list" where
  "select_jobs db limit st offset =
     sql_limit limit (sql_offset offset (order_by_desc row_created_at
       (case st of
          Some s \<Rightarrow> filter (\<lambda>r. row_status r = s) (jobs db)
        | None \<Rightarrow> jobs db)))"

definition list_jobs_params :: "int \<Rightarrow> JobStatus option \<Rightarrow> int \<Rightarrow> sql_value list" where
  "list_jobs_params limit st offset =
     (case st of
        Some s \<Rightarrow> [SqlText (JobStatus_value s), SqlInt limit, SqlInt offset]
      | None \<Rightarrow> [SqlInt limit, SqlInt offset])"

definition list_jobs ::
  "py_env \<Rightarrow> history_db \<Rightarrow> int \<Rightarrow> JobStatus option \<Rightarrow> int \<Rightarrow> py_error + DownloadJob list" where
  "list_jobs env db limit st offset =
     (case sqlite3_connect env of
        Some e \<Rightarrow> Inl e
      | None \<Rightarrow>
          (case execute env LIST_JOBS (list_jobs_params limit st offset) db of
             Some e \<Rightarrow> Inl e
           | None \<Rightarrow>
               convert_rows (row_to_job env)
                 (select_jobs db limit (map_option JobStatus_value st) offset)))"

definition get_job :: "py_env \<Rightarrow> history_db \<Rightarrow> string \<Rightarrow> py_error + DownloadJob option" where
  "get_job env db jid =
     (case sqlite3_connect env of
        Some e \<Rightarrow> Inl e
      | None \<Rightarrow>
          (case execute env GET_JOB [SqlText jid] db of
             Some e \<Rightarrow> Inl e
           | None \<Rightarrow>
               (case List.find (\<lambda>r. row_job_id r = jid) (jobs db) of
                  None \<Rightarrow> Inr None
                | Some row \<Rightarrow>
                    (case row_to_job env row of
                       Inl e \<Rightarrow> Inl e
                     | Inr job \<Rightarrow> Inr (Some job)))))"

definition select_events :: "history_db \<Rightarrow> string \<Rightarrow> int \<Rightarrow> event_row list" where
  "select_events db jid limit =
     sql_limit limit (order_by_asc ev_timestamp (filter (\<lambda>r. ev_job_id r = jid) (events db)))"

definition get_job_events ::
  "py_env \<Rightarrow> history_db \<Rightarrow> string \<Rightarrow> int \<Rightarrow> py_error + DownloadEvent list" where
  "get_job_events env db jid limit =
     (case sqlite3_connect env of
        Some e \<Rightarrow> Inl e
      | None \<Rightarrow>
          (case execute env GET_JOB_EVENTS [SqlText jid, SqlInt limit] db of
             Some e \<Rightarrow> Inl e
           | None \<Rightarrow> convert_rows (row_to_event env) (select_events db jid limit)))"

definition delete_job :: "py_env \<Rightarrow> history_db \<Rightarrow> string \<Rightarrow> py_error + bool \<times> history_db" where
  "delete_job env db jid =
     (case sqlite3_connect env of
        Some e \<Rightarrow> Inl e
      | None \<Rightarrow>
          (case execute env DELETE_JOB [SqlText jid] db of
             Some e \<Rightarrow> Inl e
           | None \<Rightarrow>
               Inr (jid \<in> set (map row_job_id (jobs db)),
                    db\<lparr>events := filter (\<lambda>e. ev_job_id e \<noteq> jid) (events db),
                       jobs := filter (\<lambda>r. row_job_id r \<noteq> jid) (jobs db)\<rparr>)))"

text \<open>
  \<open>clear_completed_jobs\<close>. The SELECT binds the status text and \<open>keep_last\<close>. With no id
  selected the call returns 0. Each DELETE is built with one \<open>?\<close> per selected id, so
  SQLite refuses the first of them with OperationalError (too many SQL variables) when
  the ids are more than \<open>max_variable_number\<close>; nothing is deleted then.
\<close>

definition select_completed :: "history_db \<Rightarrow> int \<Rightarrow> string list" where
  "select_completed db keep_last =
     map row_job_id (sql_offset keep_last (order_by_desc row_finished_at
       (filter (\<lambda>r. row_status r = JobStatus_value COMPLETED) (jobs db))))"

definition clear_completed_jobs :: "py_env \<Rightarrow> int \<Rightarrow> history_db \<Rightarrow> py_error + int \<times> history_db" where
  "clear_completed_jobs env keep_last db =
     (case sqlite3_connect env of
        Some e \<Rightarrow> Inl e
      | None \<Rightarrow>
          (case execute env CLEAR_COMPLETED_JOBS
                  [SqlText (JobStatus_value COMPLETED), SqlInt keep_last] db of
             Some e \<Rightarrow> Inl e
           | None \<Rightarrow>
               (let job_ids = select_completed db keep_last
                in if job_ids = [] then Inr (0, db)
                   else if length job_ids > max_variable_number env then Inl OperationalError
                   else Inr (int (length job_ids),
                             db\<lparr>events := filter (\<lambda>e. ev_job_id e \<notin> set job_ids) (events db),
                                jobs := filter (\<lambda>r. row_job_id r \<notin> set job_ids)
                                          (jobs db)\<rparr>))))"

section \<open>The filters of the specification\<close>

text \<open>
  The type-toggle filter and the two size filters, as the specification words them; the
  theorems below compare \<open>should_download_file\<close> with them.
\<close>

definition type_toggle_disabled :: "DownloadOptions \<Rightarrow> string \<Rightarrow> bool" where
  "type_toggle_disabled opts ft =
     (ft = ''image'' \<and> \<not> download_images opts
      \<or> ft = ''video'' \<and> \<not> download_videos opts
      \<or> ft = ''document'' \<and> \<not> download_documents opts
      \<or> ft = ''compressed'' \<and> \<not> download_compressed opts)"

definition below_minimum :: "DownloadOptions \<Rightarrow> int \<Rightarrow> bool" where
  "below_minimum opts sz = (min_file_size opts > 0 \<and> sz < min_file_size opts)"

definition above_maximum :: "DownloadOptions \<Rightarrow> int \<Rightarrow> bool" where
  "above_maximum opts sz = (max_file_size opts > 0 \<and> sz > max_file_size opts)"

section \<open>downloader/scheduler.py: the persisted table of scheduled jobs\<close>

text \<open>
  Modelled from the spec: \<open>downloader/scheduler.py\<close> is not among the sources (only
  \<open>tests/test_scheduler.py\<close> is). A scheduled job has an identifier, its URLs, a schedule
  type \<open>once|daily|weekly|interval\<close>, a reference time, an interval in minutes and an
  enabled flag; the table of scheduled jobs is keyed by the job identifier.
\<close>

datatype ScheduleType = ONCE | DAILY | WEEKLY | INTERVAL

record ScheduledJob =
  sched_job_id :: string
  urls :: "string list"
  schedule_type :: ScheduleType
  scheduled_time :: string
  interval_minutes :: int
  enabled :: bool

text \<open>
  Modelled from the spec: a scheduler instance is made for a database path and starts
  stopped. The persisted tables are kept by path, outside every instance; a path with
  no database file has no table yet.
\<close>

record DownloadScheduler =
  db_path :: string
  running :: bool

type_synonym scheduler_stores = "string \<rightharpoonup> ScheduledJob list"

definition table_of :: "scheduler_stores \<Rightarrow> string \<Rightarrow> ScheduledJob list" where
  "table_of stores path = (case stores path of None \<Rightarrow> [] | Some rows \<Rightarrow> rows)"

text \<open>
  Modelled from the spec: constructing a scheduler creates the table when it is missing
  and leaves an existing one as it is.
\<close>

definition new_scheduler :: "string \<Rightarrow> scheduler_stores \<Rightarrow> DownloadScheduler \<times> scheduler_stores" where
  "new_scheduler path stores =
     (\<lparr>db_path = path, running = False\<rparr>, stores(path \<mapsto> table_of stores path))"

text \<open>
  Modelled from the spec: \<open>schedule_job\<close> rejects an interval job whose interval is not
  positive, persists the record, emits a \<open>SCHEDULED\<close> event and returns the job id. The
  specification allows two deterministic treatments of an id that is already stored,
  rejecting it or replacing the row; the policy is a parameter.
\<close>

datatype duplicate_policy = RejectDuplicate | Upsert

datatype schedule_error = InvalidInterval | DuplicateJobId

definition schedule_job ::
  "duplicate_policy \<Rightarrow> DownloadScheduler \<Rightarrow> ScheduledJob \<Rightarrow> scheduler_stores
     \<Rightarrow> (schedule_error + string) \<times> scheduler_stores \<times> (string \<times> string) list" where
  "schedule_job policy sched job stores =
     (let rows = table_of stores (db_path sched) in
      if schedule_type job = INTERVAL \<and> interval_minutes job \<le> 0
      then (Inl InvalidInterval, stores, [])
      else if policy = RejectDuplicate \<and> sched_job_id job \<in> set (map sched_job_id rows)
      then (Inl DuplicateJobId, stores, [])
      else (Inr (sched_job_id job),
            stores(db_path sched \<mapsto>
              filter (\<lambda>j. sched_job_id j \<noteq> sched_job_id job) rows @ [job]),
            [(''SCHEDULED'', sched_job_id job)]))"

text \<open>Modelled from the spec: \<open>get_all_jobs\<close> reads the persisted table.\<close>

definition get_all_jobs :: "DownloadScheduler \<Rightarrow> scheduler_stores \<Rightarrow> ScheduledJob list" where
  "get_all_jobs sched stores = table_of stores (db_path sched)"

section \<open>The store in the words of the specification\<close>

text \<open>
  The specification's "stored text that is not valid JSON": a column that holds a text
  on which \<open>json.loads\<close> raises JSONDecodeError.
\<close>

definition malformed :: "py_env \<Rightarrow> string option \<Rightarrow> bool" where
  "malformed env column =
     (case column of None \<Rightarrow> False | Some text \<Rightarrow> json_loads env text = Inl JSONDecodeError)"

text \<open>
  An event as \<open>get_job_events\<close> gives it back after \<open>append_event\<close>: the payload was
  written with \<open>json.dumps\<close> and is read with \<open>json.loads\<close>; either may raise.
\<close>

definition reread :: "py_env \<Rightarrow> DownloadEvent \<Rightarrow> py_error + DownloadEvent" where
  "reread env e =
     (case json_dumps env (payload e) of
        Inl err \<Rightarrow> Inl err
      | Inr text \<Rightarrow>
          (case read_json env (Some text) of
             Inl err \<Rightarrow> Inl err
           | Inr p \<Rightarrow> Inr (e\<lparr>payload := p\<rparr>)))"

text \<open>
  A column that \<open>read_json\<close> reads without raising: it is NULL or empty, or it holds a
  text on which \<open>json.loads\<close> returns or raises JSONDecodeError.
\<close>

definition json_or_malformed :: "py_env \<Rightarrow> string option \<Rightarrow> bool" where
  "json_or_malformed env column =
     (case column of
        None \<Rightarrow> True
      | Some text \<Rightarrow>
          text = [] \<or> (case json_loads env text of Inr v \<Rightarrow> True | Inl e \<Rightarrow> e = JSONDecodeError))"

text \<open>The rows of the completed jobs, in table order.\<close>

definition completed_rows :: "history_db \<Rightarrow> job_row list" where
  "completed_rows db = filter (\<lambda>r. row_status r = JobStatus_value COMPLETED) (jobs db)"

text \<open>The four counters of a job fit the INTEGER columns.\<close>

definition counters_fit :: "DownloadJob \<Rightarrow> bool" where
  "counters_fit job =
     (int64 (total_items job) \<and> int64 (completed_items job)
      \<and> int64 (failed_items job) \<and> int64 (skipped_items job))"

section \<open>Concrete handlers and data for examples\<close>


text \<open>
  \<open>str.lower\<close> on text that is all ASCII, which is what the URLs of the examples are:
  the letters A to Z are lowered, every other ASCII character is kept.
\<close>

definition ascii_lower_char :: "char \<Rightarrow> char" where
  "ascii_lower_char c =
     (if CHR ''A'' \<le> c \<and> c \<le> CHR ''Z'' then char_of (of_char c + (32::nat)) else c)"

definition ascii_lower :: "string \<Rightarrow> string" where
  "ascii_lower s = map ascii_lower_char s"





definition sample_item :: "int option \<Rightarrow> MediaItem" where
  "sample_item sz =
     \<lparr>url = ''https://example.com/a.jpg'', filename = ''a.jpg'', file_type = ''image'',
      item_size = sz, post_id = None, user_id = None, published_date = None\<rparr>"

text \<open>
  An environment for the examples. Its \<open>json\<close> module is a stand-in that knows the two
  values and the texts the examples use: it writes the empty dictionary as \<open>{}\<close> and
  everything else as \<open>null\<close>, reads these two texts back, raises RecursionError on a
  text that opens a thousand or more nested lists, and JSONDecodeError on every other
  text. Its SQLite opens the database, accepts 32766 \<open>?\<close> in a statement and raises
  nothing else.
\<close>

definition example_env :: py_env where
  "example_env =
     \<lparr>json_dumps = (\<lambda>v. if v = JDict [] then Inr ''{}'' else Inr ''null''),
      json_loads = (\<lambda>text. if text = ''{}'' then Inr (JDict [])
                       else if text = ''null'' then Inr JNull
                       else if 1000 \<le> length (takeWhile (\<lambda>c. c = CHR ''['') text)
                         then Inl RecursionError
                       else Inl JSONDecodeError),
      sqlite3_connect = None,
      max_variable_number = 32766,
      sqlite3_raises = (\<lambda>op params db. None)\<rparr>"

text \<open>An event with an empty payload.\<close>

definition sample_event :: "string \<Rightarrow> string \<Rightarrow> string \<Rightarrow> DownloadEvent" where
  "sample_event jid ts tag =
     \<lparr>event_type = DownloadEventType tag, event_job_id = jid, timestamp = ts,
      payload = JDict []\<rparr>"

text \<open>A job with an empty options snapshot.\<close>

definition sample_job :: "string \<Rightarrow> JobStatus \<Rightarrow> string option \<Rightarrow> DownloadJob" where
  "sample_job jid st fin =
     \<lparr>job_ident = jid, job_url = ''https://example.com/u'', engine = ''generic'',
      status = st, created_at = ''2024-01-01T00:00:00'', started_at = None,
      finished_at = fin, total_items = 0, completed_items = 0, failed_items = 0,
      skipped_items = 0, output_folder = ''/dl'', error_message = None,
      options_snapshot = JDict []\<rparr>"

text \<open>Four events of two jobs; two events of the first job share a timestamp.\<close>

definition sample_events :: "DownloadEvent list" where
  "sample_events =
     [sample_event ''job-1'' ''2024-01-02'' ''log'',
      sample_event ''job-2'' ''2024-01-01'' ''start'',
      sample_event ''job-1'' ''2024-01-01'' ''start'',
      sample_event ''job-1'' ''2024-01-01'' ''progress'']"

text \<open>
  A run on a new store: the events are appended one after the other, then the events
  of one job id are read.
\<close>

definition events_after ::
  "py_env \<Rightarrow> DownloadEvent list \<Rightarrow> string \<Rightarrow> int \<Rightarrow> py_error + DownloadEvent list" where
  "events_after env evs jid limit =
     (case append_events env evs init_db of
        Inl e \<Rightarrow> Inl e
      | Inr db \<Rightarrow> get_job_events env db jid limit)"

text \<open>
  A store with three completed jobs, one pending job and the four events above.
\<close>

definition sample_db :: history_db where
  "sample_db =
     \<lparr>jobs =
        [job_to_row ''{}'' (sample_job ''job-1'' COMPLETED (Some ''2024-01-04'')),
         job_to_row ''{}'' (sample_job ''job-2'' COMPLETED (Some ''2024-01-05'')),
         job_to_row ''{}'' (sample_job ''job-3'' PENDING None),
         job_to_row ''{}'' (sample_job ''job-4'' COMPLETED (Some ''2024-01-03''))],
      events =
        [\<lparr>row_id = 1, ev_job_id = ''job-1'', ev_timestamp = ''2024-01-02'', ev_type = ''log'',
          payload_json = Some ''{}''\<rparr>,
         \<lparr>row_id = 2, ev_job_id = ''job-2'', ev_timestamp = ''2024-01-01'', ev_type = ''start'',
          payload_json = Some ''{}''\<rparr>,
         \<lparr>row_id = 3, ev_job_id = ''job-1'', ev_timestamp = ''2024-01-01'', ev_type = ''start'',
          payload_json = Some ''{}''\<rparr>,
         \<lparr>row_id = 4, ev_job_id = ''job-1'', ev_timestamp = ''2024-01-01'',
          ev_type = ''progress'', payload_json = Some ''{}''\<rparr>],
      events_seq = 4\<rparr>"

text \<open>
  A store with \<open>n\<close> completed jobs and nothing else; the id of a job is its number,
  written in decimal.
\<close>

fun decimal :: "nat \<Rightarrow> string" where
  "decimal n =
     (if n < 10 then [char_of (48 + n)]
      else decimal (n div 10) @ [char_of (48 + n mod 10)])"

declare decimal.simps [simp del]

definition completed_store :: "nat \<Rightarrow> history_db" where
  "completed_store n =
     \<lparr>jobs = map (\<lambda>i. job_to_row ''{}'' (sample_job (decimal i) COMPLETED (Some ''2024-01-01'')))
               [0..<n],
      events = [], events_seq = 0\<rparr>"

text \<open>
  A job row and an event row whose stored text is not valid JSON, and a store that
  holds the two.
\<close>

definition broken_job_row :: job_row where
  "broken_job_row =
     (job_to_row ''{}'' (sample_job ''job-1'' FAILED None))\<lparr>options_json := Some ''{broken''\<rparr>"

definition broken_event_row :: event_row where
  "broken_event_row =
     \<lparr>row_id = 1, ev_job_id = ''job-1'', ev_timestamp = ''2024-01-01'', ev_type = ''log'',
      payload_json = Some ''{broken''\<rparr>"

definition broken_db :: history_db where
  "broken_db = \<lparr>jobs = [broken_job_row], events = [broken_event_row], events_seq = 1\<rparr>"

text \<open>
  The same store with the text of a thousand \<open>[\<close> in the two columns: not valid JSON
  either, and nested too deep for \<open>json.loads\<close>, which raises RecursionError.
\<close>

definition deep_text :: string where
  "deep_text = replicate 1000 CHR ''[''"

definition deep_db :: history_db where
  "deep_db =
     \<lparr>jobs = [broken_job_row\<lparr>options_json := Some deep_text\<rparr>],
      events = [broken_event_row\<lparr>payload_json := Some deep_text\<rparr>],
      events_seq = 1\<rparr>"

text \<open>
  The broken job row with a status text that names no status, as a writer other than
  \<open>save_job\<close> may leave it.
\<close>

definition bogus_db :: history_db where
  "bogus_db = \<lparr>jobs = [broken_job_row\<lparr>row_status := ''bogus''\<rparr>], events = [], events_seq = 0\<rparr>"

text \<open>
  The run of \<open>test_job_persistence\<close>: a first scheduler on a new path schedules a job, a
  second scheduler is made on the same path.
\<close>

definition persist_job :: ScheduledJob where
  "persist_job =
     \<lparr>sched_job_id = ''test-persist'', urls = [''https://example.com/persist''],
      schedule_type = ONCE, scheduled_time = ''2024-01-01T00:01:00'', interval_minutes = 0,
      enabled = True\<rparr>"

definition scheduler1 :: "DownloadScheduler \<times> scheduler_stores" where
  "scheduler1 = new_scheduler ''/tmp/test.db'' Map.empty"

definition after_schedule ::
  "(schedule_error + string) \<times> scheduler_stores \<times> (string \<times> string) list" where
  "after_schedule = schedule_job Upsert (fst scheduler1) persist_job (snd scheduler1)"

definition scheduler2 :: "DownloadScheduler \<times> scheduler_stores" where
  "scheduler2 = new_scheduler ''/tmp/test.db'' (fst (snd after_schedule))"

section \<open>Properties of the handler contract\<close>

lemma sanitize_char_idem: "sanitize_char (sanitize_char c) = sanitize_char c"
  by (simp add: sanitize_char_def invalid_chars_def)

text \<open>
  C10. \<open>sanitize_filename\<close> is idempotent: sanitising a sanitised name changes nothing,
  because the underscore is not one of the nine replaced characters and every other
  character is copied.
\<close>

theorem sanitize_filename_idempotent:
  "sanitize_filename (sanitize_filename s) = sanitize_filename s
   \<and> CHR ''_'' \<notin> set invalid_chars
   \<and> length invalid_chars = 9
   \<and> length (sanitize_filename s) = length s
   \<and> (\<forall>i < length s. s ! i \<notin> set invalid_chars \<longrightarrow> sanitize_filename s ! i = s ! i)
   \<and> (\<forall>i < length s. s ! i \<in> set invalid_chars \<longrightarrow> sanitize_filename s ! i = CHR ''_'')"
  by (simp add: sanitize_filename_def sanitize_char_idem)
     (simp add: sanitize_char_def invalid_chars_def)

theorem sanitize_filename_idempotent_witness:
  "sanitize_filename ''a:b?.jpg'' = ''a_b_.jpg''
   \<and> sanitize_filename (sanitize_filename ''a:b?.jpg'') = ''a_b_.jpg''"
  using sanitize_filename_idempotent [of "''a:b?.jpg''"]
  by (simp add: sanitize_filename_def sanitize_char_def invalid_chars_def)

lemma should_download_file_eq:
  "should_download_file str_lower opts it =
     (\<not> type_toggle_disabled opts (effective_file_type str_lower it)
      \<and> (case item_size it of
           None \<Rightarrow> True
         | Some sz \<Rightarrow> sz = 0 \<or> (\<not> below_minimum opts sz \<and> \<not> above_maximum opts sz)))"
  by (auto simp add: should_download_file_def type_toggle_disabled_def below_minimum_def
      above_maximum_def Let_def split: option.splits)

text \<open>
  C3, as stated, fails: an item whose size is known to be 0 bytes is below a minimum of
  1000 bytes, and \<open>should_download_file\<close> accepts it, since the guard
  \<open>if media_item.size:\<close> skips both size filters for a size of 0.
\<close>

theorem should_download_file_zero_size_counterexample:
  "item_size (sample_item (Some 0)) = Some 0
   \<and> below_minimum (default_options\<lparr>min_file_size := 1000\<rparr>) 0
   \<and> \<not> type_toggle_disabled (default_options\<lparr>min_file_size := 1000\<rparr>)
         (effective_file_type ascii_lower (sample_item (Some 0)))
   \<and> should_download_file ascii_lower (default_options\<lparr>min_file_size := 1000\<rparr>) (sample_item (Some 0))"
  by (simp add: should_download_file_def sample_item_def default_options_def
      effective_file_type_def below_minimum_def type_toggle_disabled_def)

text \<open>
  C3, amended. \<open>should_download_file\<close> returns False when the toggle of the item's file
  type is disabled; otherwise, for an item with a known size other than 0, it returns
  False when the size is below a positive minimum or above a positive maximum, and True
  when neither holds; an item with no known size, or with size 0, bypasses both size
  filters. A 500-byte item is rejected under the default options with
  \<open>min_file_size = 1000\<close> and accepted with \<open>min_file_size = 0\<close>.
\<close>

theorem should_download_file_filters:
  "(type_toggle_disabled opts (effective_file_type str_lower it) \<longrightarrow> \<not> should_download_file str_lower opts it)
   \<and> (\<not> type_toggle_disabled opts (effective_file_type str_lower it) \<longrightarrow>
        (\<forall>sz. item_size it = Some sz \<and> sz \<noteq> 0 \<longrightarrow>
           should_download_file str_lower opts it
             = (\<not> below_minimum opts sz \<and> \<not> above_maximum opts sz))
        \<and> (item_size it = None \<or> item_size it = Some 0 \<longrightarrow> should_download_file str_lower opts it))
   \<and> (item_size it = Some 500 \<longrightarrow>
        \<not> should_download_file str_lower (default_options\<lparr>min_file_size := 1000\<rparr>) it
        \<and> should_download_file str_lower (default_options\<lparr>min_file_size := 0\<rparr>) it)"
proof -
  have scenario: "item_size it = Some 500 \<Longrightarrow>
      \<not> should_download_file str_lower (default_options\<lparr>min_file_size := 1000\<rparr>) it
      \<and> should_download_file str_lower (default_options\<lparr>min_file_size := 0\<rparr>) it"
    by (simp add: should_download_file_eq type_toggle_disabled_def below_minimum_def
        above_maximum_def default_options_def)
  have filters: "\<not> type_toggle_disabled opts (effective_file_type str_lower it) \<Longrightarrow>
      item_size it = Some sz \<Longrightarrow> sz \<noteq> 0 \<Longrightarrow>
      should_download_file str_lower opts it = (\<not> below_minimum opts sz \<and> \<not> above_maximum opts sz)"
    for sz
    by (simp add: should_download_file_eq)
  have bypass: "\<not> type_toggle_disabled opts (effective_file_type str_lower it) \<Longrightarrow>
      item_size it = None \<or> item_size it = Some 0 \<Longrightarrow> should_download_file str_lower opts it"
    by (auto simp add: should_download_file_eq)
  have disabled: "type_toggle_disabled opts (effective_file_type str_lower it) \<Longrightarrow>
      \<not> should_download_file str_lower opts it"
    by (simp add: should_download_file_eq)
  show ?thesis
    using scenario filters bypass disabled by blast
qed

theorem should_download_file_filters_witness:
  "\<not> type_toggle_disabled default_options (effective_file_type ascii_lower (sample_item (Some 500)))
   \<and> item_size (sample_item (Some 500)) = Some 500
   \<and> \<not> should_download_file ascii_lower (default_options\<lparr>min_file_size := 1000\<rparr>) (sample_item (Some 500))
   \<and> should_download_file ascii_lower (default_options\<lparr>min_file_size := 0\<rparr>) (sample_item (Some 500))
   \<and> type_toggle_disabled (default_options\<lparr>download_images := False\<rparr>)
       (effective_file_type ascii_lower (sample_item None))
   \<and> \<not> should_download_file ascii_lower (default_options\<lparr>download_images := False\<rparr>) (sample_item None)
   \<and> should_download_file ascii_lower (default_options\<lparr>min_file_size := 1000\<rparr>) (sample_item None)"
  using should_download_file_filters [of default_options ascii_lower "sample_item (Some 500)"]
    should_download_file_filters [of "default_options\<lparr>download_images := False\<rparr>" ascii_lower "sample_item None"]
    should_download_file_filters [of "default_options\<lparr>min_file_size := 1000\<rparr>" ascii_lower "sample_item None"]
  by (simp add: sample_item_def default_options_def effective_file_type_def
      type_toggle_disabled_def below_minimum_def above_maximum_def)

section \<open>Properties of the registry and the selector\<close>

text \<open>
  C9. Registering a class that is already present changes nothing: registering twice
  gives the registry, the count and the supported-sites listing of registering once, and
  the classes registered before keep their places.
\<close>

theorem register_idempotent:
  "register c (register c classes) = register c classes
   \<and> length (register c (register c classes)) = length (register c classes)
   \<and> get_supported_sites env kw0 (register c (register c classes))
       = get_supported_sites env kw0 (register c classes)
   \<and> take (length classes) (register c classes) = classes
   \<and> take (length classes) (register c (register c classes)) = classes"
  by (simp add: register_def)








section \<open>Properties of the history store\<close>

lemma JobStatus_roundtrip: "JobStatus_of_value (JobStatus_value st) = Some st"
  by (cases st) (simp_all add: JobStatus_of_value_def)

lemma find_distinct_key:
  "distinct (map f xs) \<Longrightarrow> x \<in> set xs \<Longrightarrow> List.find (\<lambda>y. f y = f x) xs = Some x"
  by (induction xs) (auto simp add: image_iff)

lemma find_append_last:
  "\<forall>y \<in> set xs. \<not> P y \<Longrightarrow> P x \<Longrightarrow> List.find P (xs @ [x]) = Some x"
  by (induction xs) auto

lemma save_job_Inr:
  "(save_job env job db = Inr db') =
     (sqlite3_connect env = None
      \<and> (\<exists>dumped. json_dumps env (options_snapshot job) = Inr dumped
            \<and> execute env SAVE_JOB (row_params (job_to_row dumped job)) db = None
            \<and> db' = db\<lparr>jobs := filter (\<lambda>r. row_job_id r \<noteq> job_ident job) (jobs db)
                                  @ [job_to_row dumped job]\<rparr>))"
  by (auto simp add: save_job_def split: option.splits sum.splits)

lemma bind_error_int:
  "bind_error params = None \<Longrightarrow> SqlInt v \<in> set params \<Longrightarrow> int64 v"
  by (induction params rule: bind_error.induct) (auto split: if_splits)

lemma execute_int:
  "execute env op params db = None \<Longrightarrow> SqlInt v \<in> set params \<Longrightarrow> int64 v"
  by (auto simp add: execute_def bind_error_int split: option.splits)

lemma save_job_counters:
  assumes "save_job env job db = Inr db'"
  shows "counters_fit job"
proof -
  from assms obtain dumped where
    ex: "execute env SAVE_JOB (row_params (job_to_row dumped job)) db = None"
    by (auto simp add: save_job_Inr)
  have "int64 v" if "SqlInt v \<in> set (row_params (job_to_row dumped job))" for v
    using ex that by (rule execute_int)
  then show ?thesis
    by (simp add: counters_fit_def row_params_def job_to_row_def)
qed

lemma get_job_last:
  assumes "sqlite3_connect env = None"
    and "execute env GET_JOB [SqlText (job_ident job)] db = None"
    and "jobs db = filter (\<lambda>r. row_job_id r \<noteq> job_ident job) rows @ [job_to_row dumped job]"
  shows "get_job env db (job_ident job)
     = (case read_json env (Some dumped) of
          Inl e \<Rightarrow> Inl e
        | Inr opts \<Rightarrow> Inr (Some (job\<lparr>options_snapshot := opts\<rparr>)))"
proof -
  have "List.find (\<lambda>r. row_job_id r = job_ident job) (jobs db) = Some (job_to_row dumped job)"
    unfolding assms(3) by (rule find_append_last) (simp_all add: job_to_row_def)
  then show ?thesis
    using assms(1,2)
    by (simp add: get_job_def row_to_job_def job_of_row_def job_to_row_def JobStatus_roundtrip
        split: sum.splits)
qed

text \<open>
  C7, as stated, fails: a job whose \<open>total_items\<close> is \<open>2 ^ 63\<close> is not saved. \<open>save_job\<close>
  raises OverflowError when the counter is bound, and the store holds no row for the id.
\<close>

theorem save_job_overflow_counterexample:
  "save_job example_env ((sample_job ''job-1'' PENDING None)\<lparr>total_items := 2 ^ 63\<rparr>) init_db
     = Inl OverflowError
   \<and> save_job example_env (sample_job ''job-1'' PENDING None) init_db
     = Inr \<lparr>jobs = [job_to_row ''{}'' (sample_job ''job-1'' PENDING None)], events = [],
            events_seq = 0\<rparr>"
  by (simp add: save_job_def example_env_def execute_def row_params_def job_to_row_def
      sample_job_def init_db_def int64_def sql_text_option_def)

text \<open>
  C7, amended. \<open>save_job\<close> is an upsert keyed by the job id, whenever it returns. It
  returns exactly when the database opens, \<open>json.dumps\<close> returns a text for the snapshot
  and the statement raises nothing; it raises, and writes nothing, when one of the four
  counters of the job is outside the signed 64-bit range. When \<open>save_job\<close> of a job
  returns and a later \<open>save_job\<close> of a job with the same id returns, the store is the
  first store with the rows of that id removed and the row of the latest call appended:
  exactly one row for the id, holding the values of the latest call, its \<open>options_json\<close>
  the latest snapshot serialized again, the other rows and the events untouched.
  \<open>get_job\<close>, when SQLite raises nothing, then returns the job of the latest call with
  the snapshot read back. Saving the same job twice gives the store of saving it once.
\<close>

theorem save_job_upsert:
  "((\<exists>db1. save_job env job db = Inr db1) =
      (sqlite3_connect env = None
       \<and> (\<exists>dumped. json_dumps env (options_snapshot job) = Inr dumped
             \<and> execute env SAVE_JOB (row_params (job_to_row dumped job)) db = None)))
   \<and> (\<not> counters_fit job \<longrightarrow> (\<exists>e. save_job env job db = Inl e))
   \<and> (save_job env job db = Inr db1 \<and> job_ident job' = job_ident job
        \<and> save_job env job' db1 = Inr db2 \<longrightarrow>
        (\<exists>dumped'. json_dumps env (options_snapshot job') = Inr dumped'
           \<and> db2 = db\<lparr>jobs := filter (\<lambda>r. row_job_id r \<noteq> job_ident job) (jobs db)
                                 @ [job_to_row dumped' job']\<rparr>
           \<and> filter (\<lambda>r. row_job_id r = job_ident job) (jobs db2) = [job_to_row dumped' job']
           \<and> options_json (job_to_row dumped' job') = Some dumped'
           \<and> filter (\<lambda>r. row_job_id r \<noteq> job_ident job) (jobs db2)
               = filter (\<lambda>r. row_job_id r \<noteq> job_ident job) (jobs db)
           \<and> events db2 = events db
           \<and> events_seq db2 = events_seq db
           \<and> (execute env GET_JOB [SqlText (job_ident job)] db2 = None \<longrightarrow>
                get_job env db2 (job_ident job)
                  = (case read_json env (Some dumped') of
                       Inl e \<Rightarrow> Inl e
                     | Inr opts \<Rightarrow> Inr (Some (job'\<lparr>options_snapshot := opts\<rparr>))))))
   \<and> (save_job env job db = Inr db1 \<and> save_job env job db1 = Inr db2 \<longrightarrow> db2 = db1)"
proof -
  have returns: "(\<exists>db1. save_job env job db = Inr db1) =
      (sqlite3_connect env = None
       \<and> (\<exists>dumped. json_dumps env (options_snapshot job) = Inr dumped
             \<and> execute env SAVE_JOB (row_params (job_to_row dumped job)) db = None))"
    by (auto simp add: save_job_Inr)
  have raises: "\<exists>e. save_job env job db = Inl e" if "\<not> counters_fit job"
  proof (cases "save_job env job db")
    case (Inl e)
    then show ?thesis by simp
  next
    case (Inr d)
    then have "counters_fit job" by (rule save_job_counters)
    with that show ?thesis by simp
  qed
  have latest: "\<exists>dumped'. json_dumps env (options_snapshot job') = Inr dumped'
      \<and> db2 = db\<lparr>jobs := filter (\<lambda>r. row_job_id r \<noteq> job_ident job) (jobs db)
                            @ [job_to_row dumped' job']\<rparr>
      \<and> filter (\<lambda>r. row_job_id r = job_ident job) (jobs db2) = [job_to_row dumped' job']
      \<and> options_json (job_to_row dumped' job') = Some dumped'
      \<and> filter (\<lambda>r. row_job_id r \<noteq> job_ident job) (jobs db2)
          = filter (\<lambda>r. row_job_id r \<noteq> job_ident job) (jobs db)
      \<and> events db2 = events db
      \<and> events_seq db2 = events_seq db
      \<and> (execute env GET_JOB [SqlText (job_ident job)] db2 = None \<longrightarrow>
           get_job env db2 (job_ident job)
             = (case read_json env (Some dumped') of
                  Inl e \<Rightarrow> Inl e
                | Inr opts \<Rightarrow> Inr (Some (job'\<lparr>options_snapshot := opts\<rparr>))))"
    if first: "save_job env job db = Inr db1" and same: "job_ident job' = job_ident job"
      and second: "save_job env job' db1 = Inr db2"
  proof -
    from first obtain dumped where
      db1: "db1 = db\<lparr>jobs := filter (\<lambda>r. row_job_id r \<noteq> job_ident job) (jobs db)
                              @ [job_to_row dumped job]\<rparr>"
      by (auto simp add: save_job_Inr)
    from second obtain dumped' where
      conn: "sqlite3_connect env = None"
      and dumps: "json_dumps env (options_snapshot job') = Inr dumped'"
      and db2: "db2 = db1\<lparr>jobs := filter (\<lambda>r. row_job_id r \<noteq> job_ident job') (jobs db1)
                                @ [job_to_row dumped' job']\<rparr>"
      by (auto simp add: save_job_Inr)
    have rows: "jobs db2 = filter (\<lambda>r. row_job_id r \<noteq> job_ident job) (jobs db)
        @ [job_to_row dumped' job']"
      by (simp add: db2 db1 same job_to_row_def)
    have store: "db2 = db\<lparr>jobs := filter (\<lambda>r. row_job_id r \<noteq> job_ident job) (jobs db)
        @ [job_to_row dumped' job']\<rparr>"
      by (simp add: db2 db1 same job_to_row_def)
    have one: "filter (\<lambda>r. row_job_id r = job_ident job) (jobs db2) = [job_to_row dumped' job']"
      by (simp add: rows same job_to_row_def)
    have others: "filter (\<lambda>r. row_job_id r \<noteq> job_ident job) (jobs db2)
        = filter (\<lambda>r. row_job_id r \<noteq> job_ident job) (jobs db)"
      by (simp add: rows same job_to_row_def)
    have evs: "events db2 = events db \<and> events_seq db2 = events_seq db"
      by (simp add: db2 db1)
    have read: "get_job env db2 (job_ident job)
        = (case read_json env (Some dumped') of
             Inl e \<Rightarrow> Inl e
           | Inr opts \<Rightarrow> Inr (Some (job'\<lparr>options_snapshot := opts\<rparr>)))"
      if "execute env GET_JOB [SqlText (job_ident job)] db2 = None"
      using get_job_last [of env job' db2 "jobs db" dumped'] conn that rows same by simp
    have col: "options_json (job_to_row dumped' job') = Some dumped'"
      by (simp add: job_to_row_def)
    show ?thesis
      by (intro exI [of _ dumped'] conjI impI)
        (rule dumps store one col others conjunct1 [OF evs] conjunct2 [OF evs] read
          | assumption)+
  qed
  have once: "db2 = db1" if "save_job env job db = Inr db1" and "save_job env job db1 = Inr db2"
    using that by (auto simp add: save_job_Inr job_to_row_def)
  show ?thesis
  proof (intro conjI)
    show "(\<exists>db1. save_job env job db = Inr db1) =
      (sqlite3_connect env = None
       \<and> (\<exists>dumped. json_dumps env (options_snapshot job) = Inr dumped
             \<and> execute env SAVE_JOB (row_params (job_to_row dumped job)) db = None))"
      by (rule returns)
  next
    show "\<not> counters_fit job \<longrightarrow> (\<exists>e. save_job env job db = Inl e)"
      using raises by blast
  next
    show "save_job env job db = Inr db1 \<and> job_ident job' = job_ident job
        \<and> save_job env job' db1 = Inr db2 \<longrightarrow>
        (\<exists>dumped'. json_dumps env (options_snapshot job') = Inr dumped'
           \<and> db2 = db\<lparr>jobs := filter (\<lambda>r. row_job_id r \<noteq> job_ident job) (jobs db)
                                 @ [job_to_row dumped' job']\<rparr>
           \<and> filter (\<lambda>r. row_job_id r = job_ident job) (jobs db2) = [job_to_row dumped' job']
           \<and> options_json (job_to_row dumped' job') = Some dumped'
           \<and> filter (\<lambda>r. row_job_id r \<noteq> job_ident job) (jobs db2)
               = filter (\<lambda>r. row_job_id r \<noteq> job_ident job) (jobs db)
           \<and> events db2 = events db
           \<and> events_seq db2 = events_seq db
           \<and> (execute env GET_JOB [SqlText (job_ident job)] db2 = None \<longrightarrow>
                get_job env db2 (job_ident job)
                  = (case read_json env (Some dumped') of
                       Inl e \<Rightarrow> Inl e
                     | Inr opts \<Rightarrow> Inr (Some (job'\<lparr>options_snapshot := opts\<rparr>)))))"
      using latest by blast
  next
    show "save_job env job db = Inr db1 \<and> save_job env job db1 = Inr db2 \<longrightarrow> db2 = db1"
      using once by blast
  qed
qed

theorem save_job_upsert_witness:
  "save_job example_env (sample_job ''job-1'' PENDING None) init_db
     = Inr \<lparr>jobs = [job_to_row ''{}'' (sample_job ''job-1'' PENDING None)], events = [],
            events_seq = 0\<rparr>
   \<and> job_ident (sample_job ''job-1'' COMPLETED (Some ''2024-01-04''))
       = job_ident (sample_job ''job-1'' PENDING None)
   \<and> save_job example_env (sample_job ''job-1'' COMPLETED (Some ''2024-01-04''))
       \<lparr>jobs = [job_to_row ''{}'' (sample_job ''job-1'' PENDING None)], events = [],
        events_seq = 0\<rparr>
     = Inr \<lparr>jobs = [job_to_row ''{}'' (sample_job ''job-1'' COMPLETED (Some ''2024-01-04''))],
            events = [], events_seq = 0\<rparr>
   \<and> get_job example_env
       \<lparr>jobs = [job_to_row ''{}'' (sample_job ''job-1'' COMPLETED (Some ''2024-01-04''))],
        events = [], events_seq = 0\<rparr> ''job-1''
     = Inr (Some (sample_job ''job-1'' COMPLETED (Some ''2024-01-04'')))
   \<and> counters_fit (sample_job ''job-1'' PENDING None)"
proof -
  let ?a = "sample_job ''job-1'' PENDING None"
  let ?b = "sample_job ''job-1'' COMPLETED (Some ''2024-01-04'')"
  let ?db1 = "\<lparr>jobs = [job_to_row ''{}'' ?a], events = [], events_seq = 0\<rparr>"
  let ?db2 = "\<lparr>jobs = [job_to_row ''{}'' ?b], events = [], events_seq = 0\<rparr>"
  have first: "save_job example_env ?a init_db = Inr ?db1"
    by (simp add: save_job_def example_env_def execute_def row_params_def job_to_row_def
        sample_job_def init_db_def int64_def sql_text_option_def)
  have same: "job_ident ?b = job_ident ?a"
    by (simp add: sample_job_def)
  have second: "save_job example_env ?b ?db1 = Inr ?db2"
    by (simp add: save_job_def example_env_def execute_def row_params_def job_to_row_def
        sample_job_def int64_def sql_text_option_def)
  have quiet: "execute example_env GET_JOB [SqlText (job_ident ?a)] ?db2 = None"
    by (simp add: execute_def example_env_def)
  have dumps: "json_dumps example_env (options_snapshot ?b) = Inr ''{}''"
    by (simp add: example_env_def sample_job_def)
  have "get_job example_env ?db2 (job_ident ?a)
      = (case read_json example_env (Some ''{}'') of
           Inl e \<Rightarrow> Inl e
         | Inr opts \<Rightarrow> Inr (Some (?b\<lparr>options_snapshot := opts\<rparr>)))"
    using save_job_upsert [where env = example_env and job = ?a and db = init_db and job' = ?b
          and ?db1.0 = ?db1 and ?db2.0 = ?db2] first same second quiet dumps
    by auto
  then have "get_job example_env ?db2 ''job-1'' = Inr (Some ?b)"
    by (simp add: read_json_def example_env_def sample_job_def)
  moreover have "counters_fit ?a"
    by (simp add: counters_fit_def sample_job_def int64_def)
  ultimately show ?thesis
    using first same second by simp
qed

lemma read_json_malformed: "malformed env column \<Longrightarrow> read_json env column = Inr (JDict [])"
  by (auto simp add: malformed_def read_json_def split: option.splits)

lemma read_json_caught: "read_json env column \<noteq> Inl JSONDecodeError"
  by (auto simp add: read_json_def split: option.splits sum.splits)

lemma read_json_returns:
  "json_or_malformed env column \<Longrightarrow> \<exists>v. read_json env column = Inr v"
  by (auto simp add: json_or_malformed_def read_json_def split: option.splits sum.splits)

lemma read_json_raises:
  "json_loads env dumped = Inl e \<Longrightarrow> e \<noteq> JSONDecodeError \<Longrightarrow> dumped \<noteq> [] \<Longrightarrow>
     read_json env (Some dumped) = Inl e"
  by (simp add: read_json_def)

lemma row_to_job_malformed:
  "malformed env (options_json row) \<Longrightarrow>
     row_to_job env row =
       (case JobStatus_of_value (row_status row) of
          None \<Rightarrow> Inl ValueError
        | Some st \<Rightarrow> Inr (job_of_row row st (JDict [])))"
  by (simp add: row_to_job_def read_json_malformed)

lemma row_to_event_malformed:
  "malformed env (payload_json erow) \<Longrightarrow>
     row_to_event env erow =
       Inr \<lparr>event_type = DownloadEventType (ev_type erow), event_job_id = ev_job_id erow,
            timestamp = ev_timestamp erow, payload = JDict []\<rparr>"
  by (simp add: row_to_event_def read_json_malformed)

lemma row_to_job_caught: "row_to_job env row \<noteq> Inl JSONDecodeError"
  using read_json_caught [of env "options_json row"]
  by (auto simp add: row_to_job_def split: sum.splits option.splits)

lemma row_to_event_caught: "row_to_event env erow \<noteq> Inl JSONDecodeError"
  using read_json_caught [of env "payload_json erow"]
  by (auto simp add: row_to_event_def split: sum.splits)

lemma row_to_job_fields:
  assumes "row_to_job env row = Inr job"
  shows "job_ident job = row_job_id row
     \<and> (malformed env (options_json row) \<longrightarrow> options_snapshot job = JDict [])"
  using assms
  by (auto simp add: row_to_job_def job_of_row_def read_json_malformed
      split: option.splits sum.splits)

lemma row_to_event_fields:
  assumes "row_to_event env erow = Inr ev"
  shows "event_job_id ev = ev_job_id erow \<and> timestamp ev = ev_timestamp erow
     \<and> (malformed env (payload_json erow) \<longrightarrow> payload ev = JDict [])"
  using assms
  by (auto simp add: row_to_event_def read_json_malformed split: sum.splits)

lemma convert_rows_map:
  "convert_rows conv rows = Inr found \<Longrightarrow> map conv rows = map Inr found"
  by (induction rows arbitrary: found) (auto split: sum.splits)

lemma map_convert_rows:
  "map conv rows = map Inr found \<Longrightarrow> convert_rows conv rows = Inr found"
  by (induction rows arbitrary: found) auto

lemma convert_rows_Inr: "(convert_rows conv rows = Inr found) = (map conv rows = map Inr found)"
  using convert_rows_map map_convert_rows by blast

lemma convert_rows_Inl: "convert_rows conv rows = Inl e \<Longrightarrow> \<exists>row \<in> set rows. conv row = Inl e"
  by (induction rows) (auto split: sum.splits)

lemma convert_rows_total:
  "\<forall>row \<in> set rows. \<exists>x. conv row = Inr x \<Longrightarrow>
     \<exists>found. convert_rows conv rows = Inr found \<and> length found = length rows
       \<and> (\<forall>i < length rows. conv (rows ! i) = Inr (found ! i))"
proof (induction rows)
  case Nil
  then show ?case by simp
next
  case (Cons row rows)
  then obtain found where found: "convert_rows conv rows = Inr found"
      "length found = length rows"
      "\<forall>i < length rows. conv (rows ! i) = Inr (found ! i)"
    by auto
  from Cons.prems obtain x where x: "conv row = Inr x"
    by auto
  have "convert_rows conv (row # rows) = Inr (x # found)"
    using x found by simp
  moreover have "\<forall>i < length (row # rows). conv ((row # rows) ! i) = Inr ((x # found) ! i)"
    using x found by (auto simp add: nth_Cons split: nat.splits)
  ultimately show ?case
    using found by auto
qed

lemma set_sql_limit: "set (sql_limit n xs) \<subseteq> set xs"
  by (auto simp add: sql_limit_def dest: in_set_takeD)

lemma set_sql_offset: "set (sql_offset n xs) \<subseteq> set xs"
  by (auto simp add: sql_offset_def dest: in_set_dropD)

lemma set_order_by_desc: "set (order_by_desc key xs) = set xs"
  by (simp add: order_by_desc_def)

lemma select_events_job:
  assumes "r \<in> set (select_events db jid lmt)"
  shows "ev_job_id r = jid"
proof -
  let ?X = "order_by_asc ev_timestamp (filter (\<lambda>r. ev_job_id r = jid) (events db))"
  have "set (sql_limit lmt ?X) \<subseteq> set ?X"
    by (rule set_sql_limit)
  moreover have "r \<in> set (sql_limit lmt ?X)"
    using assms by (simp only: select_events_def)
  ultimately have "r \<in> set ?X"
    by (rule subsetD)
  then show ?thesis
    by (simp add: order_by_asc_def)
qed

lemma get_job_malformed:
  assumes "malformed env (options_json row)" and "JobStatus_of_value (row_status row) = Some st"
    and "row \<in> set (jobs db)" and "distinct (map row_job_id (jobs db))"
    and "sqlite3_connect env = None"
    and "execute env GET_JOB [SqlText (row_job_id row)] db = None"
  shows "get_job env db (row_job_id row) = Inr (Some (job_of_row row st (JDict [])))"
proof -
  have "List.find (\<lambda>r. row_job_id r = row_job_id row) (jobs db) = Some row"
    using assms(4,3) by (rule find_distinct_key)
  then show ?thesis
    using row_to_job_malformed [OF assms(1)] assms(2,5,6) by (simp add: get_job_def)
qed

lemma list_jobs_returns:
  assumes "sqlite3_connect env = None"
    and "execute env LIST_JOBS (list_jobs_params lmt stf off) db = None"
    and "\<forall>r \<in> set (select_jobs db lmt (map_option JobStatus_value stf) off).
           JobStatus_of_value (row_status r) \<noteq> None \<and> json_or_malformed env (options_json r)"
  shows "\<exists>found. list_jobs env db lmt stf off = Inr found
     \<and> length found = length (select_jobs db lmt (map_option JobStatus_value stf) off)
     \<and> (\<forall>i < length found.
          job_ident (found ! i)
            = row_job_id (select_jobs db lmt (map_option JobStatus_value stf) off ! i)
          \<and> (malformed env
                (options_json (select_jobs db lmt (map_option JobStatus_value stf) off ! i)) \<longrightarrow>
               options_snapshot (found ! i) = JDict []))"
proof -
  let ?rows = "select_jobs db lmt (map_option JobStatus_value stf) off"
  have "\<exists>x. row_to_job env r = Inr x" if "r \<in> set ?rows" for r
  proof -
    from that assms(3) obtain st where st: "JobStatus_of_value (row_status r) = Some st"
      and ok: "json_or_malformed env (options_json r)" by auto
    from read_json_returns [OF ok] obtain v where "read_json env (options_json r) = Inr v"
      by blast
    with st show ?thesis
      by (simp add: row_to_job_def)
  qed
  then have "\<forall>r \<in> set ?rows. \<exists>x. row_to_job env r = Inr x"
    by blast
  from convert_rows_total [OF this] obtain found where
    found: "convert_rows (row_to_job env) ?rows = Inr found" "length found = length ?rows"
      "\<forall>i < length ?rows. row_to_job env (?rows ! i) = Inr (found ! i)"
    by blast
  have "\<forall>i < length found. job_ident (found ! i) = row_job_id (?rows ! i)
      \<and> (malformed env (options_json (?rows ! i)) \<longrightarrow> options_snapshot (found ! i) = JDict [])"
  proof (intro allI impI)
    fix i assume "i < length found"
    then have "row_to_job env (?rows ! i) = Inr (found ! i)"
      using found(2,3) by simp
    then show "job_ident (found ! i) = row_job_id (?rows ! i)
        \<and> (malformed env (options_json (?rows ! i)) \<longrightarrow> options_snapshot (found ! i) = JDict [])"
      by (rule row_to_job_fields)
  qed
  with found(1,2) assms(1,2) show ?thesis
    by (simp add: list_jobs_def)
qed

lemma get_job_events_returns:
  assumes "sqlite3_connect env = None"
    and "execute env GET_JOB_EVENTS [SqlText jid, SqlInt lmt] db = None"
    and "\<forall>r \<in> set (select_events db jid lmt). json_or_malformed env (payload_json r)"
  shows "\<exists>found. get_job_events env db jid lmt = Inr found
     \<and> length found = length (select_events db jid lmt)
     \<and> (\<forall>i < length found.
          event_job_id (found ! i) = jid
          \<and> timestamp (found ! i) = ev_timestamp (select_events db jid lmt ! i)
          \<and> (malformed env (payload_json (select_events db jid lmt ! i)) \<longrightarrow>
               payload (found ! i) = JDict []))"
proof -
  let ?rows = "select_events db jid lmt"
  have "\<exists>x. row_to_event env r = Inr x" if "r \<in> set ?rows" for r
  proof -
    from that assms(3) have ok: "json_or_malformed env (payload_json r)" by auto
    from read_json_returns [OF ok] obtain v where "read_json env (payload_json r) = Inr v"
      by blast
    then show ?thesis
      by (simp add: row_to_event_def)
  qed
  then have "\<forall>r \<in> set ?rows. \<exists>x. row_to_event env r = Inr x"
    by blast
  from convert_rows_total [OF this] obtain found where
    found: "convert_rows (row_to_event env) ?rows = Inr found" "length found = length ?rows"
      "\<forall>i < length ?rows. row_to_event env (?rows ! i) = Inr (found ! i)"
    by blast
  have "\<forall>i < length found. event_job_id (found ! i) = jid
      \<and> timestamp (found ! i) = ev_timestamp (?rows ! i)
      \<and> (malformed env (payload_json (?rows ! i)) \<longrightarrow> payload (found ! i) = JDict [])"
  proof (intro allI impI)
    fix i assume i: "i < length found"
    then have conv: "row_to_event env (?rows ! i) = Inr (found ! i)"
      using found(2,3) by simp
    have "?rows ! i \<in> set ?rows"
      using i found(2) by simp
    then have "ev_job_id (?rows ! i) = jid"
      by (rule select_events_job)
    with row_to_event_fields [OF conv]
    show "event_job_id (found ! i) = jid
        \<and> timestamp (found ! i) = ev_timestamp (?rows ! i)
        \<and> (malformed env (payload_json (?rows ! i)) \<longrightarrow> payload (found ! i) = JDict [])"
      by simp
  qed
  with found(1,2) assms(1,2) show ?thesis
    by (simp add: get_job_events_def)
qed

lemma reads_caught:
  assumes "sqlite3_connect env = None"
  shows "(execute env GET_JOB [SqlText jid] db = None \<longrightarrow>
            get_job env db jid \<noteq> Inl JSONDecodeError)
     \<and> (execute env LIST_JOBS (list_jobs_params lmt stf off) db = None \<longrightarrow>
            list_jobs env db lmt stf off \<noteq> Inl JSONDecodeError)
     \<and> (execute env GET_JOB_EVENTS [SqlText jid, SqlInt lmt] db = None \<longrightarrow>
            get_job_events env db jid lmt \<noteq> Inl JSONDecodeError)"
proof (intro conjI impI)
  assume "execute env GET_JOB [SqlText jid] db = None"
  then show "get_job env db jid \<noteq> Inl JSONDecodeError"
    using assms row_to_job_caught [of env]
    by (auto simp add: get_job_def split: option.splits sum.splits)
next
  assume "execute env LIST_JOBS (list_jobs_params lmt stf off) db = None"
  then show "list_jobs env db lmt stf off \<noteq> Inl JSONDecodeError"
    using assms row_to_job_caught [of env]
      convert_rows_Inl [of "row_to_job env" _ JSONDecodeError]
    by (auto simp add: list_jobs_def)
next
  assume "execute env GET_JOB_EVENTS [SqlText jid, SqlInt lmt] db = None"
  then show "get_job_events env db jid lmt \<noteq> Inl JSONDecodeError"
    using assms row_to_event_caught [of env]
      convert_rows_Inl [of "row_to_event env" _ JSONDecodeError]
    by (auto simp add: get_job_events_def)
qed

lemma deep_text_raises:
  "deep_text \<noteq> [] \<and> json_loads example_env deep_text = Inl RecursionError"
proof -
  have "replicate n CHR ''['' \<noteq> ''{}'' \<and> replicate n CHR ''['' \<noteq> ''null''" for n
    by (cases n) simp_all
  then show ?thesis
    unfolding deep_text_def example_env_def
    by simp
qed

text \<open>
  C8, as stated, fails. A stored text of a thousand \<open>[\<close> is not valid JSON, and on it
  \<open>json.loads\<close> raises RecursionError, which \<open>except json.JSONDecodeError\<close> does not
  catch: \<open>get_job\<close>, \<open>list_jobs\<close> and \<open>get_job_events\<close> raise it and return no record.
  A job row whose options text is not valid JSON and whose status text names no status
  is not returned either: \<open>JobStatus(row['status'])\<close> raises ValueError.
\<close>

theorem malformed_json_counterexample:
  "map options_json (jobs deep_db) = [Some (replicate 1000 CHR ''['')]
   \<and> map payload_json (events deep_db) = [Some (replicate 1000 CHR ''['')]
   \<and> get_job example_env deep_db ''job-1'' = Inl RecursionError
   \<and> list_jobs example_env deep_db 200 None 0 = Inl RecursionError
   \<and> get_job_events example_env deep_db ''job-1'' 1000 = Inl RecursionError
   \<and> map options_json (jobs bogus_db) = [Some ''{broken'']
   \<and> malformed example_env (Some ''{broken'')
   \<and> get_job example_env bogus_db ''job-1'' = Inl ValueError
   \<and> list_jobs example_env bogus_db 200 None 0 = Inl ValueError"
proof -
  have texts: "map options_json (jobs deep_db) = [Some (replicate 1000 CHR ''['')]
      \<and> map payload_json (events deep_db) = [Some (replicate 1000 CHR ''['')]"
    by (simp add: deep_db_def deep_text_def)
  have quiet: "sqlite3_connect example_env = None \<and> execute example_env op [SqlText s] db = None
      \<and> execute example_env op [SqlInt 200, SqlInt 0] db = None
      \<and> execute example_env op [SqlText s, SqlInt 1000] db = None" for op s db
    by (simp add: example_env_def execute_def int64_def)
  have deep: "read_json example_env (Some deep_text) = Inl RecursionError"
    using deep_text_raises by (simp add: read_json_def)
  have job: "get_job example_env deep_db ''job-1'' = Inl RecursionError"
    by (simp add: get_job_def quiet deep_db_def broken_job_row_def job_to_row_def
        sample_job_def row_to_job_def deep)
  have listed: "list_jobs example_env deep_db 200 None 0 = Inl RecursionError"
    by (simp add: list_jobs_def list_jobs_params_def quiet deep_db_def select_jobs_def
        sql_limit_def sql_offset_def order_by_desc_def row_to_job_def deep)
  have evs: "get_job_events example_env deep_db ''job-1'' 1000 = Inl RecursionError"
    by (simp add: get_job_events_def quiet deep_db_def broken_event_row_def select_events_def
        sql_limit_def order_by_asc_def row_to_event_def deep)
  have rejected: "read_json example_env (Some ''{broken'') = Inr (JDict [])
      \<and> malformed example_env (Some ''{broken'')"
    by (simp add: read_json_def malformed_def example_env_def)
  have bogus: "map options_json (jobs bogus_db) = [Some ''{broken'']
      \<and> get_job example_env bogus_db ''job-1'' = Inl ValueError
      \<and> list_jobs example_env bogus_db 200 None 0 = Inl ValueError"
    by (simp add: get_job_def list_jobs_def list_jobs_params_def quiet bogus_db_def
        broken_job_row_def job_to_row_def sample_job_def select_jobs_def sql_limit_def
        sql_offset_def order_by_desc_def row_to_job_def rejected JobStatus_of_value_def)
  show ?thesis
    using texts job listed evs rejected bogus by simp
qed

text \<open>
  C8, amended. A stored text on which \<open>json.loads\<close> raises JSONDecodeError does not make
  a record unreadable. \<open>_row_to_job\<close> reads a job row with such an options text as the
  job of its columns with \<open>{}\<close> for the options when the status text names a status, and
  raises ValueError when it names none; \<open>get_job\<close> returns that job when SQLite raises
  nothing; \<open>list_jobs\<close>, when SQLite raises nothing and every selected row has a status
  text that names a status and an options text that \<open>json.loads\<close> reads or rejects with
  JSONDecodeError, returns one job per selected row, with \<open>{}\<close> for the options of the
  rows whose text it rejects. \<open>_row_to_event\<close> reads an event row with such a payload
  text as the event of its columns with \<open>{}\<close> for the payload, and \<open>get_job_events\<close>
  returns one event per selected row under the same conditions. No read raises
  JSONDecodeError; any other exception of \<open>json.loads\<close> is raised by the read.
\<close>

theorem malformed_json_recovered:
  "(malformed env (options_json row) \<longrightarrow>
      row_to_job env row =
        (case JobStatus_of_value (row_status row) of
           None \<Rightarrow> Inl ValueError
         | Some s \<Rightarrow> Inr (job_of_row row s (JDict [])))
      \<and> options_snapshot (job_of_row row st (JDict [])) = JDict []
      \<and> (JobStatus_of_value (row_status row) = Some st
           \<and> row \<in> set (jobs db) \<and> distinct (map row_job_id (jobs db))
           \<and> sqlite3_connect env = None
           \<and> execute env GET_JOB [SqlText (row_job_id row)] db = None \<longrightarrow>
           get_job env db (row_job_id row) = Inr (Some (job_of_row row st (JDict [])))))
   \<and> (sqlite3_connect env = None
        \<and> execute env LIST_JOBS (list_jobs_params lmt stf off) db = None
        \<and> (\<forall>r \<in> set (select_jobs db lmt (map_option JobStatus_value stf) off).
              JobStatus_of_value (row_status r) \<noteq> None
              \<and> json_or_malformed env (options_json r)) \<longrightarrow>
        (\<exists>found. list_jobs env db lmt stf off = Inr found
           \<and> length found = length (select_jobs db lmt (map_option JobStatus_value stf) off)
           \<and> (\<forall>i < length found.
                job_ident (found ! i)
                  = row_job_id (select_jobs db lmt (map_option JobStatus_value stf) off ! i)
                \<and> (malformed env
                      (options_json
                         (select_jobs db lmt (map_option JobStatus_value stf) off ! i)) \<longrightarrow>
                     options_snapshot (found ! i) = JDict []))))
   \<and> (malformed env (payload_json erow) \<longrightarrow>
        row_to_event env erow =
          Inr \<lparr>event_type = DownloadEventType (ev_type erow), event_job_id = ev_job_id erow,
               timestamp = ev_timestamp erow, payload = JDict []\<rparr>)
   \<and> (sqlite3_connect env = None
        \<and> execute env GET_JOB_EVENTS [SqlText jid, SqlInt lmt] db = None
        \<and> (\<forall>r \<in> set (select_events db jid lmt). json_or_malformed env (payload_json r)) \<longrightarrow>
        (\<exists>found. get_job_events env db jid lmt = Inr found
           \<and> length found = length (select_events db jid lmt)
           \<and> (\<forall>i < length found.
                event_job_id (found ! i) = jid
                \<and> timestamp (found ! i) = ev_timestamp (select_events db jid lmt ! i)
                \<and> (malformed env (payload_json (select_events db jid lmt ! i)) \<longrightarrow>
                     payload (found ! i) = JDict []))))
   \<and> row_to_job env row \<noteq> Inl JSONDecodeError
   \<and> row_to_event env erow \<noteq> Inl JSONDecodeError
   \<and> (sqlite3_connect env = None \<longrightarrow>
        (execute env GET_JOB [SqlText jid] db = None \<longrightarrow>
           get_job env db jid \<noteq> Inl JSONDecodeError)
        \<and> (execute env LIST_JOBS (list_jobs_params lmt stf off) db = None \<longrightarrow>
             list_jobs env db lmt stf off \<noteq> Inl JSONDecodeError)
        \<and> (execute env GET_JOB_EVENTS [SqlText jid, SqlInt lmt] db = None \<longrightarrow>
             get_job_events env db jid lmt \<noteq> Inl JSONDecodeError))
   \<and> (json_loads env dumped = Inl e \<and> e \<noteq> JSONDecodeError \<and> dumped \<noteq> [] \<longrightarrow>
        (options_json row = Some dumped \<longrightarrow> row_to_job env row = Inl e)
        \<and> (payload_json erow = Some dumped \<longrightarrow> row_to_event env erow = Inl e))"
proof -
  have job: "malformed env (options_json row) \<Longrightarrow>
      row_to_job env row =
        (case JobStatus_of_value (row_status row) of
           None \<Rightarrow> Inl ValueError
         | Some s \<Rightarrow> Inr (job_of_row row s (JDict [])))"
    by (rule row_to_job_malformed)
  have empty: "options_snapshot (job_of_row row st (JDict [])) = JDict []"
    by (simp add: job_of_row_def)
  have one: "malformed env (options_json row) \<Longrightarrow>
      JobStatus_of_value (row_status row) = Some st
        \<and> row \<in> set (jobs db) \<and> distinct (map row_job_id (jobs db))
        \<and> sqlite3_connect env = None
        \<and> execute env GET_JOB [SqlText (row_job_id row)] db = None \<Longrightarrow>
      get_job env db (row_job_id row) = Inr (Some (job_of_row row st (JDict [])))"
    using get_job_malformed [of env row st db] by blast
  have raised: "json_loads env dumped = Inl e \<and> e \<noteq> JSONDecodeError \<and> dumped \<noteq> [] \<Longrightarrow>
      (options_json row = Some dumped \<longrightarrow> row_to_job env row = Inl e)
      \<and> (payload_json erow = Some dumped \<longrightarrow> row_to_event env erow = Inl e)"
    by (simp add: row_to_job_def row_to_event_def read_json_raises)
  show ?thesis
  proof (intro conjI)
    show "malformed env (options_json row) \<longrightarrow>
        row_to_job env row =
          (case JobStatus_of_value (row_status row) of
             None \<Rightarrow> Inl ValueError
           | Some s \<Rightarrow> Inr (job_of_row row s (JDict [])))
        \<and> options_snapshot (job_of_row row st (JDict [])) = JDict []
        \<and> (JobStatus_of_value (row_status row) = Some st
             \<and> row \<in> set (jobs db) \<and> distinct (map row_job_id (jobs db))
             \<and> sqlite3_connect env = None
             \<and> execute env GET_JOB [SqlText (row_job_id row)] db = None \<longrightarrow>
             get_job env db (row_job_id row) = Inr (Some (job_of_row row st (JDict []))))"
      using job empty one by blast
  next
    show "sqlite3_connect env = None
        \<and> execute env LIST_JOBS (list_jobs_params lmt stf off) db = None
        \<and> (\<forall>r \<in> set (select_jobs db lmt (map_option JobStatus_value stf) off).
              JobStatus_of_value (row_status r) \<noteq> None
              \<and> json_or_malformed env (options_json r)) \<longrightarrow>
        (\<exists>found. list_jobs env db lmt stf off = Inr found
           \<and> length found = length (select_jobs db lmt (map_option JobStatus_value stf) off)
           \<and> (\<forall>i < length found.
                job_ident (found ! i)
                  = row_job_id (select_jobs db lmt (map_option JobStatus_value stf) off ! i)
                \<and> (malformed env
                      (options_json
                         (select_jobs db lmt (map_option JobStatus_value stf) off ! i)) \<longrightarrow>
                     options_snapshot (found ! i) = JDict [])))"
    proof (rule impI)
      assume a: "sqlite3_connect env = None
        \<and> execute env LIST_JOBS (list_jobs_params lmt stf off) db = None
        \<and> (\<forall>r \<in> set (select_jobs db lmt (map_option JobStatus_value stf) off).
              JobStatus_of_value (row_status r) \<noteq> None
              \<and> json_or_malformed env (options_json r))"
      show "\<exists>found. list_jobs env db lmt stf off = Inr found
           \<and> length found = length (select_jobs db lmt (map_option JobStatus_value stf) off)
           \<and> (\<forall>i < length found.
                job_ident (found ! i)
                  = row_job_id (select_jobs db lmt (map_option JobStatus_value stf) off ! i)
                \<and> (malformed env
                      (options_json
                         (select_jobs db lmt (map_option JobStatus_value stf) off ! i)) \<longrightarrow>
                     options_snapshot (found ! i) = JDict []))"
        by (rule list_jobs_returns)
          (rule conjunct1 [OF a] conjunct1 [OF conjunct2 [OF a]]
            conjunct2 [OF conjunct2 [OF a]])+
    qed
  next
    show "malformed env (payload_json erow) \<longrightarrow>
        row_to_event env erow =
          Inr \<lparr>event_type = DownloadEventType (ev_type erow), event_job_id = ev_job_id erow,
               timestamp = ev_timestamp erow, payload = JDict []\<rparr>"
      by (rule impI) (rule row_to_event_malformed)
  next
    show "sqlite3_connect env = None
        \<and> execute env GET_JOB_EVENTS [SqlText jid, SqlInt lmt] db = None
        \<and> (\<forall>r \<in> set (select_events db jid lmt). json_or_malformed env (payload_json r)) \<longrightarrow>
        (\<exists>found. get_job_events env db jid lmt = Inr found
           \<and> length found = length (select_events db jid lmt)
           \<and> (\<forall>i < length found.
                event_job_id (found ! i) = jid
                \<and> timestamp (found ! i) = ev_timestamp (select_events db jid lmt ! i)
                \<and> (malformed env (payload_json (select_events db jid lmt ! i)) \<longrightarrow>
                     payload (found ! i) = JDict [])))"
    proof (rule impI)
      assume a: "sqlite3_connect env = None
        \<and> execute env GET_JOB_EVENTS [SqlText jid, SqlInt lmt] db = None
        \<and> (\<forall>r \<in> set (select_events db jid lmt). json_or_malformed env (payload_json r))"
      show "\<exists>found. get_job_events env db jid lmt = Inr found
           \<and> length found = length (select_events db jid lmt)
           \<and> (\<forall>i < length found.
                event_job_id (found ! i) = jid
                \<and> timestamp (found ! i) = ev_timestamp (select_events db jid lmt ! i)
                \<and> (malformed env (payload_json (select_events db jid lmt ! i)) \<longrightarrow>
                     payload (found ! i) = JDict []))"
        by (rule get_job_events_returns)
          (rule conjunct1 [OF a] conjunct1 [OF conjunct2 [OF a]]
            conjunct2 [OF conjunct2 [OF a]])+
    qed
  next
    show "row_to_job env row \<noteq> Inl JSONDecodeError"
      by (rule row_to_job_caught)
  next
    show "row_to_event env erow \<noteq> Inl JSONDecodeError"
      by (rule row_to_event_caught)
  next
    show "sqlite3_connect env = None \<longrightarrow>
        (execute env GET_JOB [SqlText jid] db = None \<longrightarrow>
           get_job env db jid \<noteq> Inl JSONDecodeError)
        \<and> (execute env LIST_JOBS (list_jobs_params lmt stf off) db = None \<longrightarrow>
             list_jobs env db lmt stf off \<noteq> Inl JSONDecodeError)
        \<and> (execute env GET_JOB_EVENTS [SqlText jid, SqlInt lmt] db = None \<longrightarrow>
             get_job_events env db jid lmt \<noteq> Inl JSONDecodeError)"
      by (rule impI) (rule reads_caught)
  next
    show "json_loads env dumped = Inl e \<and> e \<noteq> JSONDecodeError \<and> dumped \<noteq> [] \<longrightarrow>
        (options_json row = Some dumped \<longrightarrow> row_to_job env row = Inl e)
        \<and> (payload_json erow = Some dumped \<longrightarrow> row_to_event env erow = Inl e)"
      by (rule impI) (rule raised)
  qed
qed

theorem malformed_json_recovered_witness:
  "malformed example_env (options_json broken_job_row)
   \<and> JobStatus_of_value (row_status broken_job_row) = Some FAILED
   \<and> sqlite3_connect example_env = None
   \<and> execute example_env GET_JOB [SqlText ''job-1''] broken_db = None
   \<and> get_job example_env broken_db ''job-1'' = Inr (Some (sample_job ''job-1'' FAILED None))
   \<and> execute example_env LIST_JOBS (list_jobs_params 1000 None 0) broken_db = None
   \<and> list_jobs example_env broken_db 1000 None 0 = Inr [sample_job ''job-1'' FAILED None]
   \<and> malformed example_env (payload_json broken_event_row)
   \<and> execute example_env GET_JOB_EVENTS [SqlText ''job-1'', SqlInt 1000] broken_db = None
   \<and> get_job_events example_env broken_db ''job-1'' 1000
       = Inr [sample_event ''job-1'' ''2024-01-01'' ''log'']
   \<and> json_loads example_env deep_text = Inl RecursionError
   \<and> row_to_job example_env (broken_job_row\<lparr>options_json := Some deep_text\<rparr>)
       = Inl RecursionError"
proof -
  have quiet: "sqlite3_connect example_env = None
      \<and> execute example_env GET_JOB [SqlText ''job-1''] broken_db = None
      \<and> execute example_env LIST_JOBS (list_jobs_params 1000 None 0) broken_db = None
      \<and> execute example_env GET_JOB_EVENTS [SqlText ''job-1'', SqlInt 1000] broken_db = None"
    by (simp add: example_env_def execute_def int64_def list_jobs_params_def)
  have bad: "malformed example_env (options_json broken_job_row)
      \<and> malformed example_env (payload_json broken_event_row)
      \<and> JobStatus_of_value (row_status broken_job_row) = Some FAILED"
    by (simp add: malformed_def broken_job_row_def broken_event_row_def example_env_def
        job_to_row_def sample_job_def JobStatus_of_value_def)
  have rows: "jobs broken_db = [broken_job_row] \<and> row_job_id broken_job_row = ''job-1''
      \<and> select_jobs broken_db 1000 None 0 = [broken_job_row]
      \<and> select_events broken_db ''job-1'' 1000 = [broken_event_row]
      \<and> json_or_malformed example_env (options_json broken_job_row)
      \<and> json_or_malformed example_env (payload_json broken_event_row)"
    by (simp add: broken_db_def broken_job_row_def broken_event_row_def job_to_row_def
        sample_job_def select_jobs_def select_events_def sql_limit_def sql_offset_def
        order_by_desc_def order_by_asc_def json_or_malformed_def example_env_def)
  have cols: "job_of_row broken_job_row FAILED (JDict []) = sample_job ''job-1'' FAILED None"
    by (simp add: job_of_row_def broken_job_row_def job_to_row_def sample_job_def)
  note inst = malformed_json_recovered [where env = example_env and row = broken_job_row
      and st = FAILED and db = broken_db and lmt = 1000 and stf = None and off = 0
      and erow = "broken_event_row\<lparr>payload_json := Some deep_text\<rparr>" and jid = "''job-1''"
      and dumped = deep_text and e = RecursionError]
  have got: "get_job example_env broken_db ''job-1'' = Inr (Some (sample_job ''job-1'' FAILED None))"
    using inst quiet bad rows cols by simp
  have deep: "row_to_job example_env (broken_job_row\<lparr>options_json := Some deep_text\<rparr>)
      = Inl RecursionError"
    using malformed_json_recovered [where env = example_env
        and row = "broken_job_row\<lparr>options_json := Some deep_text\<rparr>"
        and dumped = deep_text and e = RecursionError] deep_text_raises
    by simp
  have listed: "list_jobs example_env broken_db 1000 None 0 = Inr [sample_job ''job-1'' FAILED None]"
    using bad
    by (simp add: list_jobs_def quiet rows row_to_job_malformed cols)
  have evs: "get_job_events example_env broken_db ''job-1'' 1000
      = Inr [sample_event ''job-1'' ''2024-01-01'' ''log'']"
    using bad
    by (simp add: get_job_events_def quiet rows row_to_event_malformed)
      (simp add: broken_event_row_def sample_event_def)
  show ?thesis
    using quiet bad got listed evs deep deep_text_raises by simp
qed

lemma insort_key_rel:
  assumes "list_all2 R xs ys" and "R x y" and "\<And>a b. R a b \<Longrightarrow> f a = g b"
  shows "list_all2 R (insort_key f x xs) (insort_key g y ys)"
  using assms(1)
proof (induction rule: list_all2_induct)
  case Nil
  then show ?case using assms(2) by simp
next
  case (Cons a xs b ys)
  have "f a = g b" "f x = g y"
    using Cons.hyps(1) assms(2) by (simp_all add: assms(3))
  with Cons assms(2) show ?case by simp
qed

lemma sort_key_rel:
  assumes "list_all2 R xs ys" and "\<And>a b. R a b \<Longrightarrow> f a = g b"
  shows "list_all2 R (sort_key f xs) (sort_key g ys)"
  using assms(1)
proof (induction rule: list_all2_induct)
  case Nil
  then show ?case by simp
next
  case (Cons a xs b ys)
  then show ?case
    by (simp add: insort_key_rel [where R = R and f = f and g = g] assms(2))
qed

lemma filter_rel:
  assumes "list_all2 R xs ys" and "\<And>a b. R a b \<Longrightarrow> P a = Q b"
  shows "list_all2 R (filter P xs) (filter Q ys)"
  using assms(1)
proof (induction rule: list_all2_induct)
  case Nil
  then show ?case by simp
next
  case (Cons a xs b ys)
  have "P a = Q b"
    using Cons.hyps(1) by (rule assms(2))
  with Cons show ?case by simp
qed

lemma sql_limit_rel: "list_all2 R xs ys \<Longrightarrow> list_all2 R (sql_limit n xs) (sql_limit n ys)"
  by (simp add: sql_limit_def)

lemma convert_rows_rel:
  "list_all2 (\<lambda>x y. f x = g y) xs ys \<Longrightarrow> convert_rows f xs = convert_rows g ys"
  by (induction rule: list_all2_induct) (simp_all split: sum.splits)

lemma list_all2_of_map: "map f xs = map g ys \<Longrightarrow> list_all2 (\<lambda>x y. f x = g y) xs ys"
proof -
  assume "map f xs = map g ys"
  then have "list_all2 (=) (map f xs) (map g ys)"
    by (simp add: list_all2_eq)
  then show ?thesis
    by (simp add: list_all2_map1 list_all2_map2)
qed

lemma map_of_list_all2: "list_all2 (\<lambda>x y. f x = g y) xs ys \<Longrightarrow> map f xs = map g ys"
  by (induction rule: list_all2_induct) simp_all

lemma list_all2_right:
  "list_all2 R xs ys \<Longrightarrow> y \<in> set ys \<Longrightarrow> \<exists>x \<in> set xs. R x y"
  by (induction rule: list_all2_induct) auto

lemma append_event_Inr:
  "(append_event env e db = Inr db') =
     (sqlite3_connect env = None
      \<and> (\<exists>dumped. json_dumps env (payload e) = Inr dumped
            \<and> execute env APPEND_EVENT
                 [SqlText (event_job_id e), SqlText (timestamp e),
                  SqlText (event_type_value (event_type e)), SqlText dumped] db = None
            \<and> db' = db\<lparr>events := events db @
                          [\<lparr>row_id = Suc (max (events_seq db) (max_row_id (events db))),
                            ev_job_id = event_job_id e, ev_timestamp = timestamp e,
                            ev_type = event_type_value (event_type e),
                            payload_json = Some dumped\<rparr>],
                        events_seq := Suc (max (events_seq db) (max_row_id (events db)))\<rparr>))"
  by (auto simp add: append_event_def Let_def split: option.splits sum.splits)

lemma append_events_rows:
  "append_events env evs db = Inr db' \<Longrightarrow>
     \<exists>rows. events db' = events db @ rows
       \<and> list_all2 (\<lambda>r e. ev_job_id r = event_job_id e \<and> ev_timestamp r = timestamp e
                        \<and> row_to_event env r = reread env e) rows evs"
proof (induction evs arbitrary: db)
  case Nil
  then show ?case by simp
next
  case (Cons e evs)
  from Cons.prems obtain db1 where one: "append_event env e db = Inr db1"
    and more: "append_events env evs db1 = Inr db'"
    by (auto split: sum.splits)
  from one obtain dumped where dumped: "json_dumps env (payload e) = Inr dumped"
    and db1: "events db1 = events db @
        [\<lparr>row_id = Suc (max (events_seq db) (max_row_id (events db))),
          ev_job_id = event_job_id e, ev_timestamp = timestamp e,
          ev_type = event_type_value (event_type e), payload_json = Some dumped\<rparr>]"
    by (auto simp add: append_event_Inr)
  define row where "row = \<lparr>row_id = Suc (max (events_seq db) (max_row_id (events db))),
      ev_job_id = event_job_id e, ev_timestamp = timestamp e,
      ev_type = event_type_value (event_type e), payload_json = Some dumped\<rparr>"
  have row: "ev_job_id row = event_job_id e" "ev_timestamp row = timestamp e"
      "ev_type row = event_type_value (event_type e)" "payload_json row = Some dumped"
    by (simp_all add: row_def)
  have same: "row_to_event env row = reread env e"
    using dumped row by (simp add: row_to_event_def reread_def split: sum.splits)
  from Cons.IH [OF more] obtain rows where rows: "events db' = events db1 @ rows"
    "list_all2 (\<lambda>r e. ev_job_id r = event_job_id e \<and> ev_timestamp r = timestamp e
                        \<and> row_to_event env r = reread env e) rows evs"
    by blast
  have "events db' = events db @ (row # rows)"
    using rows(1) db1 by (simp add: row_def)
  moreover have "list_all2 (\<lambda>r e. ev_job_id r = event_job_id e \<and> ev_timestamp r = timestamp e
                        \<and> row_to_event env r = reread env e) (row # rows) (e # evs)"
    using rows(2) row(1,2) same by simp
  ultimately show ?case by blast
qed

lemma get_job_events_Inr:
  "(get_job_events env db jid lmt = Inr found) =
     (sqlite3_connect env = None
      \<and> execute env GET_JOB_EVENTS [SqlText jid, SqlInt lmt] db = None
      \<and> convert_rows (row_to_event env) (select_events db jid lmt) = Inr found)"
  by (auto simp add: get_job_events_def split: option.splits)

lemma select_events_appended:
  assumes "append_events env evs init_db = Inr db'"
  shows "convert_rows (row_to_event env) (select_events db' jid lmt)
     = convert_rows (reread env)
         (sql_limit lmt (sort_key timestamp (filter (\<lambda>e. event_job_id e = jid) evs)))"
proof -
  let ?R = "\<lambda>r e. ev_job_id r = event_job_id e \<and> ev_timestamp r = timestamp e
      \<and> row_to_event env r = reread env e"
  from append_events_rows [OF assms] have all: "list_all2 ?R (events db') evs"
    by (simp add: init_db_def)
  have "list_all2 ?R (filter (\<lambda>r. ev_job_id r = jid) (events db'))
      (filter (\<lambda>e. event_job_id e = jid) evs)"
    using all by (rule filter_rel) simp
  then have "list_all2 ?R (sort_key ev_timestamp (filter (\<lambda>r. ev_job_id r = jid) (events db')))
      (sort_key timestamp (filter (\<lambda>e. event_job_id e = jid) evs))"
    by (rule sort_key_rel) simp
  then have "list_all2 ?R (select_events db' jid lmt)
      (sql_limit lmt (sort_key timestamp (filter (\<lambda>e. event_job_id e = jid) evs)))"
    unfolding select_events_def order_by_asc_def by (rule sql_limit_rel)
  then have "list_all2 (\<lambda>r e. row_to_event env r = reread env e) (select_events db' jid lmt)
      (sql_limit lmt (sort_key timestamp (filter (\<lambda>e. event_job_id e = jid) evs)))"
    by (rule list_all2_mono) simp
  then show ?thesis
    by (rule convert_rows_rel)
qed

lemma reread_fields:
  "reread env e = Inr ev \<Longrightarrow> timestamp ev = timestamp e \<and> event_job_id ev = event_job_id e"
  by (auto simp add: reread_def split: sum.splits)

lemma sorted_sql_limit:
  assumes "sorted (map f xs)"
  shows "sorted (map f (sql_limit n xs))"
proof -
  have "sorted (take (nat n) (map f xs))"
    using assms by (rule sorted_wrt_take)
  then show ?thesis
    using assms by (simp add: sql_limit_def take_map)
qed

lemma length_sql_limit:
  "length (sql_limit n xs) = (if n < 0 then length xs else min (nat n) (length xs))"
  by (auto simp add: sql_limit_def)

lemma filter_sql_limit_prefix: "\<exists>rest. filter P xs = filter P (sql_limit n xs) @ rest"
proof (cases "n < 0")
  case True
  then show ?thesis by (simp add: sql_limit_def)
next
  case False
  have "filter P xs = filter P (take (nat n) xs) @ filter P (drop (nat n) xs)"
    by (metis append_take_drop_id filter_append)
  with False show ?thesis by (auto simp add: sql_limit_def)
qed

lemma sql_limit_all: "n < 0 \<or> int (length xs) \<le> n \<Longrightarrow> sql_limit n xs = xs"
  by (auto simp add: sql_limit_def)

lemma events_in_order:
  assumes conv: "convert_rows (reread env)
      (sql_limit lmt (sort_key timestamp (filter (\<lambda>e. event_job_id e = jid) evs))) = Inr found"
  shows "sorted (map timestamp found)
     \<and> (\<forall>ev \<in> set found. event_job_id ev = jid)
     \<and> length found = (if lmt < 0 then length (filter (\<lambda>e. event_job_id e = jid) evs)
          else min (nat lmt) (length (filter (\<lambda>e. event_job_id e = jid) evs)))
     \<and> (\<forall>t. \<exists>rest.
           map (reread env) (filter (\<lambda>e. event_job_id e = jid \<and> timestamp e = t) evs)
             = map Inr (filter (\<lambda>ev. timestamp ev = t) found) @ rest)
     \<and> (lmt < 0 \<or> int (length (filter (\<lambda>e. event_job_id e = jid) evs)) \<le> lmt \<longrightarrow>
          (\<forall>t. map Inr (filter (\<lambda>ev. timestamp ev = t) found)
                 = map (reread env)
                     (filter (\<lambda>e. event_job_id e = jid \<and> timestamp e = t) evs)))"
proof -
  let ?X = "filter (\<lambda>e. event_job_id e = jid) evs"
  let ?S = "sort_key timestamp ?X"
  let ?L = "sql_limit lmt ?S"
  have m: "map (reread env) ?L = map Inr found"
    using conv by (rule convert_rows_map)
  then have rel: "list_all2 (\<lambda>e ev. reread env e = Inr ev) ?L found"
    by (rule list_all2_of_map)
  have "list_all2 (\<lambda>e ev. timestamp e = timestamp ev) ?L found"
    using rel by (rule list_all2_mono) (simp add: reread_fields)
  then have stamps: "map timestamp ?L = map timestamp found"
    by (rule map_of_list_all2)
  have "sorted (map timestamp ?L)"
    by (rule sorted_sql_limit) (rule sorted_sort_key)
  then have ordered: "sorted (map timestamp found)"
    by (simp only: stamps)
  have ids: "\<forall>ev \<in> set found. event_job_id ev = jid"
  proof
    fix ev assume "ev \<in> set found"
    from list_all2_right [OF rel this] obtain e where e: "e \<in> set ?L" "reread env e = Inr ev"
      by blast
    have "set ?L \<subseteq> set ?S"
      by (rule set_sql_limit)
    with e(1) have "e \<in> set ?S" by (rule subsetD [rotated])
    then have "event_job_id e = jid" by simp
    with reread_fields [OF e(2)] show "event_job_id ev = jid" by simp
  qed
  have "length found = length ?L"
    using m by (metis length_map)
  then have count: "length found = (if lmt < 0 then length ?X else min (nat lmt) (length ?X))"
    by (simp add: length_sql_limit)
  have flt: "map (reread env) (filter (\<lambda>e. timestamp e = t) ?L)
      = map Inr (filter (\<lambda>ev. timestamp ev = t) found)" for t
  proof -
    have "list_all2 (\<lambda>e ev. reread env e = Inr ev) (filter (\<lambda>e. timestamp e = t) ?L)
        (filter (\<lambda>ev. timestamp ev = t) found)"
      using rel by (rule filter_rel) (simp add: reread_fields)
    then show ?thesis
      by (rule map_of_list_all2)
  qed
  have stable: "filter (\<lambda>e. timestamp e = t) ?S
      = filter (\<lambda>e. event_job_id e = jid \<and> timestamp e = t) evs" for t
  proof -
    have "filter (\<lambda>e. timestamp e = t) ?S = filter (\<lambda>e. timestamp e = t) ?X"
      by (rule sort_key_stable)
    then show ?thesis
      by (simp add: conj_commute)
  qed
  have ties: "\<exists>rest. map (reread env) (filter (\<lambda>e. event_job_id e = jid \<and> timestamp e = t) evs)
      = map Inr (filter (\<lambda>ev. timestamp ev = t) found) @ rest" for t
  proof -
    obtain rest where "filter (\<lambda>e. timestamp e = t) ?S
        = filter (\<lambda>e. timestamp e = t) ?L @ rest"
      using filter_sql_limit_prefix [of "\<lambda>e. timestamp e = t" ?S lmt] by blast
    then have "map (reread env) (filter (\<lambda>e. event_job_id e = jid \<and> timestamp e = t) evs)
        = map (reread env) (filter (\<lambda>e. timestamp e = t) ?L) @ map (reread env) rest"
      by (simp only: stable [symmetric] map_append)
    then show ?thesis
      by (simp only: flt) blast
  qed
  have whole: "map Inr (filter (\<lambda>ev. timestamp ev = t) found)
      = map (reread env) (filter (\<lambda>e. event_job_id e = jid \<and> timestamp e = t) evs)"
    if "lmt < 0 \<or> int (length ?X) \<le> lmt" for t
  proof -
    from that have "?L = ?S"
      by (simp add: sql_limit_all)
    with flt [of t] stable [of t] show ?thesis
      by simp
  qed
  show ?thesis
    using ordered ids count ties whole by blast
qed

lemma append_events_example: "\<exists>db'. append_events example_env evs db = Inr db'"
proof (induction evs arbitrary: db)
  case Nil
  then show ?case by simp
next
  case (Cons e evs)
  have "\<exists>db1. append_event example_env e db = Inr db1"
    by (simp add: append_event_Inr example_env_def execute_def)
  then obtain db1 where "append_event example_env e db = Inr db1"
    by blast
  with Cons.IH [of db1] show ?case by simp
qed

lemma reread_example: "payload e = JDict [] \<Longrightarrow> reread example_env e = Inr e"
  by (simp add: reread_def read_json_def example_env_def)

lemma events_after_example:
  assumes "\<forall>e \<in> set evs. payload e = JDict []" and "int64 lmt"
  shows "events_after example_env evs jid lmt
     = Inr (sql_limit lmt (sort_key timestamp (filter (\<lambda>e. event_job_id e = jid) evs)))"
proof -
  let ?L = "sql_limit lmt (sort_key timestamp (filter (\<lambda>e. event_job_id e = jid) evs))"
  obtain db' where db': "append_events example_env evs init_db = Inr db'"
    using append_events_example by blast
  have "set ?L \<subseteq> set (sort_key timestamp (filter (\<lambda>e. event_job_id e = jid) evs))"
    by (rule set_sql_limit)
  then have "\<forall>e \<in> set ?L. payload e = JDict []"
    using assms(1) by auto
  then have "map (reread example_env) ?L = map Inr ?L"
    by (simp add: reread_example)
  then have "convert_rows (reread example_env) ?L = Inr ?L"
    by (rule map_convert_rows)
  then have "convert_rows (row_to_event example_env) (select_events db' jid lmt) = Inr ?L"
    by (simp only: select_events_appended [OF db'])
  moreover have "sqlite3_connect example_env = None
      \<and> execute example_env GET_JOB_EVENTS [SqlText jid, SqlInt lmt] db' = None"
    using assms(2) by (simp add: example_env_def execute_def)
  ultimately have "get_job_events example_env db' jid lmt = Inr ?L"
    by (simp add: get_job_events_Inr)
  then show ?thesis
    by (simp add: events_after_def db')
qed

text \<open>
  C4, as stated, fails on the count: \<open>get_job_events\<close> has a \<open>limit\<close> parameter, 1000
  by default, and after 1001 appends for one job id it returns 1000 events.
\<close>

theorem get_job_events_limit_counterexample:
  "event_job_id (sample_event ''job-1'' ''2024-01-01'' ''log'') = ''job-1''
   \<and> length (replicate 1001 (sample_event ''job-1'' ''2024-01-01'' ''log'')) = 1001
   \<and> events_after example_env (replicate 1001 (sample_event ''job-1'' ''2024-01-01'' ''log''))
        ''job-1'' 1000
       = Inr (replicate 1000 (sample_event ''job-1'' ''2024-01-01'' ''log''))
   \<and> length (replicate 1000 (sample_event ''job-1'' ''2024-01-01'' ''log'')) = 1000"
proof -
  let ?e = "sample_event ''job-1'' ''2024-01-01'' ''log''"
  have "sort_key timestamp (replicate 1001 ?e) = replicate 1001 ?e"
    by (rule sort_key_id_if_sorted) simp
  moreover have "filter (\<lambda>e. event_job_id e = ''job-1'') (replicate 1001 ?e) = replicate 1001 ?e"
    by (simp add: sample_event_def)
  moreover have "sql_limit 1000 (replicate 1001 ?e) = replicate 1000 ?e"
    by (simp add: sql_limit_def)
  moreover have "\<forall>e \<in> set (replicate 1001 ?e). payload e = JDict []"
    by (simp add: sample_event_def)
  moreover have "int64 1000"
    by (simp add: int64_def)
  ultimately have "events_after example_env (replicate 1001 ?e) ''job-1'' 1000
      = Inr (replicate 1000 ?e)"
    by (simp add: events_after_example)
  then show ?thesis
    by (simp add: sample_event_def)
qed

text \<open>
  C4, amended. After any sequence of \<open>append_event\<close> calls that returned, on a store that
  was empty, a call of \<open>get_job_events\<close> that returns gives the events appended for the
  job id, each with its payload read back, sorted by timestamp with the sort's ties in
  insertion order, and cut after \<open>limit\<close> events (1000 unless the caller says otherwise;
  a negative limit cuts nothing). The timestamps of the result are non-decreasing; the
  events of one timestamp are the first ones appended with it, in the order of their
  appends; the number of events returned is the number of appends for the id when that
  is at most \<open>limit\<close>, and \<open>limit\<close> otherwise. The call returns when the database opens,
  SQLite raises nothing and the payload of every event of the id reads back; it raises
  when \<open>limit\<close> is outside the signed 64-bit range.
\<close>

theorem get_job_events_after_appends:
  "(append_events env evs init_db = Inr db' \<and> get_job_events env db' jid lmt = Inr found \<longrightarrow>
      int64 lmt
      \<and> map (reread env) (sql_limit lmt (sort_key timestamp
            (filter (\<lambda>e. event_job_id e = jid) evs))) = map Inr found
      \<and> sorted (map timestamp found)
      \<and> (\<forall>ev \<in> set found. event_job_id ev = jid)
      \<and> length found
          = (if lmt < 0 then length (filter (\<lambda>e. event_job_id e = jid) evs)
             else min (nat lmt) (length (filter (\<lambda>e. event_job_id e = jid) evs)))
      \<and> (\<forall>t. \<exists>rest.
            map (reread env) (filter (\<lambda>e. event_job_id e = jid \<and> timestamp e = t) evs)
              = map Inr (filter (\<lambda>ev. timestamp ev = t) found) @ rest)
      \<and> (lmt < 0 \<or> int (length (filter (\<lambda>e. event_job_id e = jid) evs)) \<le> lmt \<longrightarrow>
           length found = length (filter (\<lambda>e. event_job_id e = jid) evs)
           \<and> (\<forall>t. map Inr (filter (\<lambda>ev. timestamp ev = t) found)
                  = map (reread env)
                      (filter (\<lambda>e. event_job_id e = jid \<and> timestamp e = t) evs))))
   \<and> (append_events env evs init_db = Inr db' \<and> sqlite3_connect env = None
        \<and> execute env GET_JOB_EVENTS [SqlText jid, SqlInt lmt] db' = None
        \<and> (\<forall>e \<in> set evs. event_job_id e = jid \<longrightarrow> (\<exists>ev. reread env e = Inr ev)) \<longrightarrow>
        (\<exists>out. get_job_events env db' jid lmt = Inr out))
   \<and> (\<not> int64 lmt \<longrightarrow> (\<exists>e. get_job_events env db jid lmt = Inl e))"
proof -
  let ?X = "filter (\<lambda>e. event_job_id e = jid) evs"
  let ?L = "sql_limit lmt (sort_key timestamp ?X)"
  have after: "int64 lmt
      \<and> map (reread env) ?L = map Inr found
      \<and> sorted (map timestamp found)
      \<and> (\<forall>ev \<in> set found. event_job_id ev = jid)
      \<and> length found = (if lmt < 0 then length ?X else min (nat lmt) (length ?X))
      \<and> (\<forall>t. \<exists>rest.
            map (reread env) (filter (\<lambda>e. event_job_id e = jid \<and> timestamp e = t) evs)
              = map Inr (filter (\<lambda>ev. timestamp ev = t) found) @ rest)
      \<and> (lmt < 0 \<or> int (length ?X) \<le> lmt \<longrightarrow>
           length found = length ?X
           \<and> (\<forall>t. map Inr (filter (\<lambda>ev. timestamp ev = t) found)
                  = map (reread env)
                      (filter (\<lambda>e. event_job_id e = jid \<and> timestamp e = t) evs)))"
    if appended: "append_events env evs init_db = Inr db'"
      and got: "get_job_events env db' jid lmt = Inr found"
  proof -
    from got have quiet: "execute env GET_JOB_EVENTS [SqlText jid, SqlInt lmt] db' = None"
      and rows: "convert_rows (row_to_event env) (select_events db' jid lmt) = Inr found"
      by (simp_all add: get_job_events_Inr)
    have fits: "int64 lmt"
      using quiet by (rule execute_int) simp
    have conv: "convert_rows (reread env) ?L = Inr found"
      using rows by (simp only: select_events_appended [OF appended])
    then have shape: "map (reread env) ?L = map Inr found"
      by (rule convert_rows_map)
    note order = events_in_order [OF conv]
    have full: "length found = length ?X" if "lmt < 0 \<or> int (length ?X) \<le> lmt"
      using that order by auto
    show ?thesis
      using fits shape order full by blast
  qed
  have returns: "\<exists>out. get_job_events env db' jid lmt = Inr out"
    if appended: "append_events env evs init_db = Inr db'"
      and conn: "sqlite3_connect env = None"
      and quiet: "execute env GET_JOB_EVENTS [SqlText jid, SqlInt lmt] db' = None"
      and reads: "\<forall>e \<in> set evs. event_job_id e = jid \<longrightarrow> (\<exists>ev. reread env e = Inr ev)"
  proof -
    have "set ?L \<subseteq> set (sort_key timestamp ?X)"
      by (rule set_sql_limit)
    then have "\<forall>e \<in> set ?L. \<exists>ev. reread env e = Inr ev"
      using reads by auto
    from convert_rows_total [OF this] obtain out where
      "convert_rows (reread env) ?L = Inr out"
      by blast
    then have "convert_rows (row_to_event env) (select_events db' jid lmt) = Inr out"
      by (simp only: select_events_appended [OF appended])
    with conn quiet show ?thesis
      by (simp add: get_job_events_Inr)
  qed
  have raises: "\<exists>e. get_job_events env db jid lmt = Inl e" if "\<not> int64 lmt"
  proof (cases "get_job_events env db jid lmt")
    case (Inl e)
    then show ?thesis by simp
  next
    case (Inr out)
    then have "execute env GET_JOB_EVENTS [SqlText jid, SqlInt lmt] db = None"
      by (simp add: get_job_events_Inr)
    then have "int64 lmt"
      by (rule execute_int) simp
    with that show ?thesis by simp
  qed
  show ?thesis
  proof (intro conjI)
    show "append_events env evs init_db = Inr db' \<and> get_job_events env db' jid lmt = Inr found \<longrightarrow>
      int64 lmt
      \<and> map (reread env) (sql_limit lmt (sort_key timestamp
            (filter (\<lambda>e. event_job_id e = jid) evs))) = map Inr found
      \<and> sorted (map timestamp found)
      \<and> (\<forall>ev \<in> set found. event_job_id ev = jid)
      \<and> length found
          = (if lmt < 0 then length (filter (\<lambda>e. event_job_id e = jid) evs)
             else min (nat lmt) (length (filter (\<lambda>e. event_job_id e = jid) evs)))
      \<and> (\<forall>t. \<exists>rest.
            map (reread env) (filter (\<lambda>e. event_job_id e = jid \<and> timestamp e = t) evs)
              = map Inr (filter (\<lambda>ev. timestamp ev = t) found) @ rest)
      \<and> (lmt < 0 \<or> int (length (filter (\<lambda>e. event_job_id e = jid) evs)) \<le> lmt \<longrightarrow>
           length found = length (filter (\<lambda>e. event_job_id e = jid) evs)
           \<and> (\<forall>t. map Inr (filter (\<lambda>ev. timestamp ev = t) found)
                  = map (reread env)
                      (filter (\<lambda>e. event_job_id e = jid \<and> timestamp e = t) evs)))"
    proof (rule impI)
      assume a: "append_events env evs init_db = Inr db'
          \<and> get_job_events env db' jid lmt = Inr found"
      show "int64 lmt
        \<and> map (reread env) ?L = map Inr found
        \<and> sorted (map timestamp found)
        \<and> (\<forall>ev \<in> set found. event_job_id ev = jid)
        \<and> length found = (if lmt < 0 then length ?X else min (nat lmt) (length ?X))
        \<and> (\<forall>t. \<exists>rest.
              map (reread env) (filter (\<lambda>e. event_job_id e = jid \<and> timestamp e = t) evs)
                = map Inr (filter (\<lambda>ev. timestamp ev = t) found) @ rest)
        \<and> (lmt < 0 \<or> int (length ?X) \<le> lmt \<longrightarrow>
             length found = length ?X
             \<and> (\<forall>t. map Inr (filter (\<lambda>ev. timestamp ev = t) found)
                    = map (reread env)
                        (filter (\<lambda>e. event_job_id e = jid \<and> timestamp e = t) evs)))"
        by (rule after) (rule conjunct1 [OF a] conjunct2 [OF a])+
    qed
  next
    show "append_events env evs init_db = Inr db' \<and> sqlite3_connect env = None
        \<and> execute env GET_JOB_EVENTS [SqlText jid, SqlInt lmt] db' = None
        \<and> (\<forall>e \<in> set evs. event_job_id e = jid \<longrightarrow> (\<exists>ev. reread env e = Inr ev)) \<longrightarrow>
        (\<exists>out. get_job_events env db' jid lmt = Inr out)"
      using returns by blast
  next
    show "\<not> int64 lmt \<longrightarrow> (\<exists>e. get_job_events env db jid lmt = Inl e)"
      using raises by blast
  qed
qed

theorem get_job_events_after_appends_witness:
  "events_after example_env sample_events ''job-1'' 1000
     = Inr [sample_event ''job-1'' ''2024-01-01'' ''start'',
            sample_event ''job-1'' ''2024-01-01'' ''progress'',
            sample_event ''job-1'' ''2024-01-02'' ''log'']
   \<and> events_after example_env sample_events ''job-1'' 2
     = Inr [sample_event ''job-1'' ''2024-01-01'' ''start'',
            sample_event ''job-1'' ''2024-01-01'' ''progress'']
   \<and> events_after example_env sample_events ''job-1'' (2 ^ 63) = Inl OverflowError"
proof -
  let ?start = "sample_event ''job-1'' ''2024-01-01'' ''start''"
  let ?progress = "sample_event ''job-1'' ''2024-01-01'' ''progress''"
  let ?log = "sample_event ''job-1'' ''2024-01-02'' ''log''"
  obtain db' where appended: "append_events example_env sample_events init_db = Inr db'"
    using append_events_example by blast
  have quiet: "sqlite3_connect example_env = None
      \<and> execute example_env GET_JOB_EVENTS [SqlText ''job-1'', SqlInt lmt] db'
          = (if int64 lmt then None else Some OverflowError)" for lmt
    by (simp add: example_env_def execute_def)
  have reads: "\<forall>e \<in> set sample_events. event_job_id e = ''job-1'' \<longrightarrow>
      (\<exists>ev. reread example_env e = Inr ev)"
    by (simp add: sample_events_def sample_event_def reread_example)
  have again: "reread example_env e = Inr e" if "e \<in> set sample_events" for e
    using that by (auto simp add: sample_events_def sample_event_def reread_example)
  have chosen: "sort_key timestamp (filter (\<lambda>e. event_job_id e = ''job-1'') sample_events)
      = [?start, ?progress, ?log]"
    by (simp add: sample_events_def sample_event_def)
  have result: "get_job_events example_env db' ''job-1'' lmt = Inr (sql_limit lmt [?start, ?progress, ?log])"
    if fits: "int64 lmt" for lmt
  proof -
    have "\<exists>out. get_job_events example_env db' ''job-1'' lmt = Inr out"
      by (rule mp [OF conjunct1 [OF conjunct2 [OF get_job_events_after_appends
          [where env = example_env and evs = sample_events and db' = db'
            and jid = "''job-1''" and lmt = lmt]]]])
        (simp add: appended quiet fits reads)
    then obtain out where out: "get_job_events example_env db' ''job-1'' lmt = Inr out"
      by blast
    have "int64 lmt
        \<and> map (reread example_env) (sql_limit lmt (sort_key timestamp
              (filter (\<lambda>e. event_job_id e = ''job-1'') sample_events))) = map Inr out"
      using mp [OF conjunct1 [OF get_job_events_after_appends
          [where env = example_env and evs = sample_events and db' = db'
            and jid = "''job-1''" and lmt = lmt and found = out]]] appended out
      by blast
    then have "map (reread example_env) (sql_limit lmt [?start, ?progress, ?log]) = map Inr out"
      by (simp only: chosen)
    moreover have "map (reread example_env) (sql_limit lmt [?start, ?progress, ?log])
        = map Inr (sql_limit lmt [?start, ?progress, ?log])"
      by (auto simp add: sql_limit_def reread_example sample_event_def take_Cons'
          simp del: take_Suc_Cons split: nat.splits)
    ultimately have "out = sql_limit lmt [?start, ?progress, ?log]"
      by simp
    with out show ?thesis by simp
  qed
  have big: "get_job_events example_env db' ''job-1'' (2 ^ 63) = Inl OverflowError"
    using quiet [of "2 ^ 63"] by (simp add: get_job_events_def int64_def)
  have "sql_limit 1000 [?start, ?progress, ?log] = [?start, ?progress, ?log]
      \<and> sql_limit 2 [?start, ?progress, ?log] = [?start, ?progress]
      \<and> int64 1000 \<and> int64 2"
    by (simp add: sql_limit_def int64_def)
  then show ?thesis
    using result [of 1000] result [of 2] big by (simp add: events_after_def appended)
qed

text \<open>
  The primary key: the job ids of the store are distinct at the start, and the
  operations that write the jobs table keep them so.
\<close>

lemma init_db_keys: "distinct (map row_job_id (jobs init_db))"
  by (simp add: init_db_def)

lemma save_job_keys:
  "save_job env job db = Inr db' \<Longrightarrow> distinct (map row_job_id (jobs db)) \<Longrightarrow>
     distinct (map row_job_id (jobs db'))"
  by (auto simp add: save_job_Inr job_to_row_def distinct_map_filter)

lemma clear_completed_jobs_keys:
  "clear_completed_jobs env keep_last db = Inr (n, db') \<Longrightarrow>
     distinct (map row_job_id (jobs db)) \<Longrightarrow> distinct (map row_job_id (jobs db'))"
  by (auto simp add: clear_completed_jobs_def Let_def distinct_map_filter
      split: option.splits if_splits)

lemma distinct_order_by_desc: "distinct (order_by_desc key xs) = distinct xs"
  by (simp add: order_by_desc_def)

lemma length_order_by_desc: "length (order_by_desc key xs) = length xs"
  by (simp add: order_by_desc_def)

lemma sorted_order_by_desc: "sorted_wrt (\<lambda>a b. key b \<le> key a) (order_by_desc key xs)"
proof -
  have "sorted (map key (sort_key key (rev xs)))"
    by (rule sorted_sort_key)
  then have "sorted_wrt (\<lambda>a b. key a \<le> key b) (sort_key key (rev xs))"
    by (simp add: sorted_map)
  then show ?thesis
    by (simp add: order_by_desc_def sorted_wrt_rev)
qed

lemma take_drop_ordered:
  assumes "sorted_wrt R xs" and "a \<in> set (take k xs)" and "b \<in> set (drop k xs)"
  shows "R a b"
proof -
  have "sorted_wrt R (take k xs @ drop k xs)"
    using assms(1) by simp
  then show ?thesis
    using assms(2,3) unfolding sorted_wrt_append by blast
qed

lemma filter_by_key_of_rows:
  assumes "distinct (map key xs)" and "set gone \<subseteq> set xs"
  shows "filter (\<lambda>r. key r \<notin> set (map key gone)) xs = filter (\<lambda>r. r \<notin> set gone) xs"
proof (rule filter_cong [OF refl])
  fix r assume r: "r \<in> set xs"
  from assms(1) have inj: "inj_on key (set xs)"
    by (simp add: distinct_map)
  show "(key r \<notin> set (map key gone)) = (r \<notin> set gone)"
  proof
    assume "key r \<notin> set (map key gone)"
    then show "r \<notin> set gone" by auto
  next
    assume out: "r \<notin> set gone"
    show "key r \<notin> set (map key gone)"
    proof
      assume "key r \<in> set (map key gone)"
      then obtain g where g: "g \<in> set gone" "key g = key r" by auto
      with assms(2) have "g \<in> set xs" by blast
      with inj r g(2) have "g = r" by (simp add: inj_on_def)
      with g(1) out show False by simp
    qed
  qed
qed

lemma length_filter_not_in_drop:
  assumes "distinct xs" and "set ys = set xs" and "distinct ys" and "k \<le> length ys"
  shows "length (filter (\<lambda>r. r \<notin> set (drop k ys)) xs) = k"
proof -
  have "length (filter (\<lambda>r. r \<in> set (drop k ys)) xs) = card ({r. r \<in> set (drop k ys)} \<inter> set xs)"
    using assms(1) by (rule distinct_length_filter)
  also have "{r. r \<in> set (drop k ys)} \<inter> set xs = set (drop k ys)"
    using assms(2) by (auto dest: in_set_dropD)
  also have "card (set (drop k ys)) = length ys - k"
    using assms(3) by (simp add: distinct_card)
  finally have inside: "length (filter (\<lambda>r. r \<in> set (drop k ys)) xs) = length ys - k" .
  have "length xs = length ys"
    using assms(1,2,3) by (metis distinct_card)
  moreover have "length (filter (\<lambda>r. r \<in> set (drop k ys)) xs)
      + length (filter (\<lambda>r. r \<notin> set (drop k ys)) xs) = length xs"
    by (rule sum_length_filter_compl)
  ultimately show ?thesis
    using inside assms(4) by simp
qed

lemma set_filter_not_in_drop:
  assumes "set ys = set xs" and "distinct ys"
  shows "set (filter (\<lambda>r. r \<notin> set (drop k ys)) xs) = set (take k ys)"
proof -
  have "set (take k ys) \<inter> set (drop k ys) = {}"
    using assms(2) by (simp add: set_take_disj_set_drop_if_distinct)
  moreover have "set (take k ys) \<union> set (drop k ys) = set xs"
    using assms(1) by (metis append_take_drop_id set_append)
  ultimately show ?thesis by auto
qed

lemma select_completed_drop:
  "select_completed db (int k)
     = map row_job_id (drop k (order_by_desc row_finished_at (completed_rows db)))"
  by (simp add: select_completed_def sql_offset_def completed_rows_def)

lemma clear_completed_jobs_run:
  assumes "sqlite3_connect env = None"
    and "execute env CLEAR_COMPLETED_JOBS
           [SqlText (JobStatus_value COMPLETED), SqlInt (int k)] db = None"
    and "k < length (completed_rows db)"
  shows "clear_completed_jobs env (int k) db =
     (if length (completed_rows db) - k > max_variable_number env then Inl OperationalError
      else Inr (int (length (completed_rows db) - k),
        db\<lparr>events := filter (\<lambda>e. ev_job_id e \<notin> set (map row_job_id
                (drop k (order_by_desc row_finished_at (completed_rows db))))) (events db),
           jobs := filter (\<lambda>r. row_job_id r \<notin> set (map row_job_id
                (drop k (order_by_desc row_finished_at (completed_rows db))))) (jobs db)\<rparr>))"
proof -
  let ?ids = "map row_job_id (drop k (order_by_desc row_finished_at (completed_rows db)))"
  have len: "length ?ids = length (completed_rows db) - k"
    by (simp add: length_order_by_desc)
  then have "?ids \<noteq> []"
    using assms(3) by (metis length_0_conv zero_less_diff less_numeral_extra(3))
  then show ?thesis
    using assms(1,2) len
    by (simp add: clear_completed_jobs_def select_completed_drop Let_def
        del: length_map length_drop)
qed

lemma decimal_number:
  "foldl (\<lambda>a c. 10 * a + (of_char c - 48)) (0::nat) (decimal n) = n"
proof (induction n rule: decimal.induct)
  case (1 n)
  show ?case
  proof (cases "n < 10")
    case True
    then show ?thesis
      by (subst decimal.simps) simp
  next
    case False
    have "(48 + n mod 10) mod 256 = 48 + n mod 10"
      by simp
    with False 1 show ?thesis
      by (subst decimal.simps) simp
  qed
qed

lemma inj_decimal: "inj decimal"
  by (rule inj_on_inverseI [where g = "foldl (\<lambda>a c. 10 * a + (of_char c - 48)) (0::nat)"])
    (rule decimal_number)

lemma completed_store_rows:
  "completed_rows (completed_store n) = jobs (completed_store n)
   \<and> length (jobs (completed_store n)) = n
   \<and> distinct (map row_job_id (jobs (completed_store n)))"
proof -
  have "map row_job_id (jobs (completed_store n)) = map decimal [0..<n]"
    by (simp add: completed_store_def job_to_row_def sample_job_def)
  moreover have "distinct (map decimal [0..<n])"
    using inj_decimal by (simp add: distinct_map inj_on_def)
  ultimately have "distinct (map row_job_id (jobs (completed_store n)))"
    by simp
  moreover have "completed_rows (completed_store n) = jobs (completed_store n)"
    by (simp add: completed_rows_def completed_store_def job_to_row_def sample_job_def
        filter_map o_def)
  moreover have "length (jobs (completed_store n)) = n"
    by (simp add: completed_store_def)
  ultimately show ?thesis
    by simp
qed

text \<open>
  C5, as stated, fails on a large store. With 1000001 completed jobs and
  \<open>keep_last = 0\<close>, each DELETE statement is built with 1000001 \<open>?\<close>, more than SQLite
  accepts in one statement: \<open>clear_completed_jobs\<close> raises OperationalError, deletes
  nothing and returns no count.
\<close>

theorem clear_completed_jobs_counterexample:
  "length (completed_rows (completed_store 1000001)) = 1000001
   \<and> distinct (map row_job_id (jobs (completed_store 1000001)))
   \<and> max_variable_number example_env = 32766
   \<and> clear_completed_jobs example_env 0 (completed_store 1000001) = Inl OperationalError"
proof -
  have rows: "length (completed_rows (completed_store 1000001)) = 1000001
      \<and> distinct (map row_job_id (jobs (completed_store 1000001)))"
    using completed_store_rows [of 1000001] by simp
  have limit: "max_variable_number example_env = 32766"
    by (simp add: example_env_def)
  have "clear_completed_jobs example_env (int 0) (completed_store 1000001) =
     (if length (completed_rows (completed_store 1000001)) - 0 > max_variable_number example_env
      then Inl OperationalError
      else Inr (int (length (completed_rows (completed_store 1000001)) - 0),
        (completed_store 1000001)\<lparr>events := filter (\<lambda>e. ev_job_id e \<notin> set (map row_job_id
                (drop 0 (order_by_desc row_finished_at (completed_rows (completed_store 1000001))))))
                (events (completed_store 1000001)),
           jobs := filter (\<lambda>r. row_job_id r \<notin> set (map row_job_id
                (drop 0 (order_by_desc row_finished_at (completed_rows (completed_store 1000001))))))
                (jobs (completed_store 1000001))\<rparr>))"
  proof (rule clear_completed_jobs_run)
    show "sqlite3_connect example_env = None"
      by (simp add: example_env_def)
    show "execute example_env CLEAR_COMPLETED_JOBS
        [SqlText (JobStatus_value COMPLETED), SqlInt (int 0)] (completed_store 1000001) = None"
      by (simp add: example_env_def execute_def int64_def)
    show "0 < length (completed_rows (completed_store 1000001))"
      by (simp add: conjunct1 [OF rows])
  qed
  then have "clear_completed_jobs example_env 0 (completed_store 1000001) = Inl OperationalError"
    by (simp only: conjunct1 [OF rows] limit) simp
  with rows limit show ?thesis
    by (simp only: simp_thms)
qed

text \<open>
  C5, amended. In a store whose job ids are distinct (\<open>job_id\<close> is the primary key) and
  that holds \<open>n > k\<close> completed jobs, when the database opens and SQLite raises nothing,
  \<open>clear_completed_jobs(keep_last = k)\<close> with \<open>n - k\<close> at most the number of \<open>?\<close> SQLite
  accepts in a statement returns \<open>n - k\<close>, deletes \<open>n - k\<close> completed jobs and every
  event of theirs and no other event, and leaves \<open>k\<close> completed jobs, each finished no
  earlier than every deleted one (a job with no finish time counts as the earliest); the
  jobs of every other status stay as they were. With \<open>n - k\<close> above that number it
  raises OperationalError and deletes nothing.
\<close>

theorem clear_completed_jobs_keeps_latest:
  assumes keys: "distinct (map row_job_id (jobs db))"
    and more: "k < length (completed_rows db)"
    and conn: "sqlite3_connect env = None"
    and quiet: "execute env CLEAR_COMPLETED_JOBS
                  [SqlText (JobStatus_value COMPLETED), SqlInt (int k)] db = None"
  shows "(length (completed_rows db) - k \<le> max_variable_number env \<longrightarrow>
      (\<exists>db' gone.
        clear_completed_jobs env (int k) db = Inr (int (length (completed_rows db) - k), db')
        \<and> length gone = length (completed_rows db) - k
        \<and> distinct gone
        \<and> set gone \<subseteq> set (completed_rows db)
        \<and> jobs db' = filter (\<lambda>r. r \<notin> set gone) (jobs db)
        \<and> length (jobs db') = length (jobs db) - (length (completed_rows db) - k)
        \<and> events db' = filter (\<lambda>e. ev_job_id e \<notin> row_job_id ` set gone) (events db)
        \<and> events_seq db' = events_seq db
        \<and> length (completed_rows db') = k
        \<and> set (completed_rows db') = set (completed_rows db) - set gone
        \<and> (\<forall>kept \<in> set (completed_rows db'). \<forall>g \<in> set gone.
              row_finished_at g \<le> row_finished_at kept)
        \<and> filter (\<lambda>r. row_status r \<noteq> JobStatus_value COMPLETED) (jobs db')
            = filter (\<lambda>r. row_status r \<noteq> JobStatus_value COMPLETED) (jobs db)))
   \<and> (max_variable_number env < length (completed_rows db) - k \<longrightarrow>
        clear_completed_jobs env (int k) db = Inl OperationalError)"
proof -
  let ?C = "completed_rows db"
  let ?S = "order_by_desc row_finished_at ?C"
  let ?G = "drop k ?S"
  let ?ids = "map row_job_id ?G"
  let ?db' = "db\<lparr>events := filter (\<lambda>e. ev_job_id e \<notin> set ?ids) (events db),
                  jobs := filter (\<lambda>r. row_job_id r \<notin> set ?ids) (jobs db)\<rparr>"
  note run = clear_completed_jobs_run [OF conn quiet more]
  have refused: "clear_completed_jobs env (int k) db = Inl OperationalError"
    if "max_variable_number env < length ?C - k"
    using that by (simp only: run if_True)
  have dist_jobs: "distinct (jobs db)"
    using keys by (simp add: distinct_map)
  then have dist_C: "distinct ?C"
    by (simp add: completed_rows_def)
  have set_S: "set ?S = set ?C"
    by (rule set_order_by_desc)
  have dist_S: "distinct ?S"
    using dist_C by (simp add: distinct_order_by_desc)
  have len_S: "length ?S = length ?C"
    by (rule length_order_by_desc)
  have len_G: "length ?G = length ?C - k"
    by (simp add: len_S)
  have G_sub_C: "set ?G \<subseteq> set ?C"
    using set_S by (auto dest: in_set_dropD)
  have C_sub: "set ?C \<subseteq> set (jobs db)"
    by (auto simp add: completed_rows_def)
  have G_sub: "set ?G \<subseteq> set (jobs db)"
    using G_sub_C C_sub by blast
  have jobs': "jobs ?db' = filter (\<lambda>r. r \<notin> set ?G) (jobs db)"
    using filter_by_key_of_rows [OF keys G_sub] by simp
  have parts: "length (filter (\<lambda>r. r \<in> set ?G) (jobs db))
      + length (filter (\<lambda>r. r \<notin> set ?G) (jobs db)) = length (jobs db)"
    by (rule sum_length_filter_compl)
  have "length (filter (\<lambda>r. r \<in> set ?G) (jobs db)) = card ({r. r \<in> set ?G} \<inter> set (jobs db))"
    using dist_jobs by (rule distinct_length_filter)
  also have "{r. r \<in> set ?G} \<inter> set (jobs db) = set ?G"
    using G_sub by auto
  also have "card (set ?G) = length ?G"
    using dist_S by (simp add: distinct_card)
  finally have len_jobs': "length (jobs ?db') = length (jobs db) - (length ?C - k)"
    using parts jobs' len_G by simp
  have events': "events ?db' = filter (\<lambda>e. ev_job_id e \<notin> row_job_id ` set ?G) (events db)"
    by simp
  have C': "completed_rows ?db' = filter (\<lambda>r. r \<notin> set ?G) ?C"
  proof -
    have "completed_rows ?db'
        = filter (\<lambda>r. row_status r = JobStatus_value COMPLETED) (jobs ?db')"
      by (simp only: completed_rows_def)
    also have "\<dots> = filter (\<lambda>r. row_status r = JobStatus_value COMPLETED)
        (filter (\<lambda>r. r \<notin> set ?G) (jobs db))"
      by (simp only: jobs')
    also have "\<dots> = filter (\<lambda>r. r \<notin> set ?G)
        (filter (\<lambda>r. row_status r = JobStatus_value COMPLETED) (jobs db))"
      by (simp only: filter_filter conj_commute)
    finally show ?thesis
      by (simp only: completed_rows_def)
  qed
  have len_C': "length (completed_rows ?db') = k"
    unfolding C' using dist_C set_S dist_S more len_S
    by (intro length_filter_not_in_drop) simp_all
  have set_C': "set (completed_rows ?db') = set (take k ?S)"
    unfolding C' using set_S dist_S by (rule set_filter_not_in_drop)
  have set_C'_diff: "set (completed_rows ?db') = set ?C - set ?G"
    unfolding C' by auto
  have order: "\<forall>kept \<in> set (completed_rows ?db'). \<forall>g \<in> set ?G.
      row_finished_at g \<le> row_finished_at kept"
    unfolding set_C'
    using take_drop_ordered [OF sorted_order_by_desc [of row_finished_at ?C]] by blast
  have others: "filter (\<lambda>r. row_status r \<noteq> JobStatus_value COMPLETED) (jobs ?db')
      = filter (\<lambda>r. row_status r \<noteq> JobStatus_value COMPLETED) (jobs db)"
  proof -
    have "filter (\<lambda>r. row_status r \<noteq> JobStatus_value COMPLETED)
            (filter (\<lambda>r. r \<notin> set ?G) (jobs db))
        = filter (\<lambda>r. row_status r \<noteq> JobStatus_value COMPLETED) (jobs db)"
      unfolding filter_filter
    proof (rule filter_cong [OF refl])
      fix r assume "r \<in> set (jobs db)"
      have "r \<in> set ?G \<Longrightarrow> row_status r = JobStatus_value COMPLETED"
        using G_sub_C by (auto simp add: completed_rows_def)
      then show "(r \<notin> set ?G \<and> row_status r \<noteq> JobStatus_value COMPLETED)
          = (row_status r \<noteq> JobStatus_value COMPLETED)" by blast
    qed
    then show ?thesis by (simp only: jobs')
  qed
  have seq: "events_seq ?db' = events_seq db" by simp
  have dist_G: "distinct ?G" using dist_S by simp
  have cleared: "\<exists>db' gone.
        clear_completed_jobs env (int k) db = Inr (int (length ?C - k), db')
        \<and> length gone = length ?C - k
        \<and> distinct gone
        \<and> set gone \<subseteq> set ?C
        \<and> jobs db' = filter (\<lambda>r. r \<notin> set gone) (jobs db)
        \<and> length (jobs db') = length (jobs db) - (length ?C - k)
        \<and> events db' = filter (\<lambda>e. ev_job_id e \<notin> row_job_id ` set gone) (events db)
        \<and> events_seq db' = events_seq db
        \<and> length (completed_rows db') = k
        \<and> set (completed_rows db') = set ?C - set gone
        \<and> (\<forall>kept \<in> set (completed_rows db'). \<forall>g \<in> set gone.
              row_finished_at g \<le> row_finished_at kept)
        \<and> filter (\<lambda>r. row_status r \<noteq> JobStatus_value COMPLETED) (jobs db')
            = filter (\<lambda>r. row_status r \<noteq> JobStatus_value COMPLETED) (jobs db)"
    if fits: "length ?C - k \<le> max_variable_number env"
  proof -
    from fits have "\<not> max_variable_number env < length ?C - k"
      by simp
    then have ran: "clear_completed_jobs env (int k) db = Inr (int (length ?C - k), ?db')"
      by (simp only: run if_False)
    show ?thesis
      using ran len_G dist_G G_sub_C jobs' len_jobs' events' seq len_C' set_C'_diff order others
      by (intro exI [of _ ?db'] exI [of _ ?G]) (simp only: simp_thms)
  qed
  show ?thesis
    using cleared refused by (intro conjI impI)
qed

theorem clear_completed_jobs_keeps_latest_witness:
  "distinct (map row_job_id (jobs sample_db))
   \<and> map row_job_id (completed_rows sample_db) = [''job-1'', ''job-2'', ''job-4'']
   \<and> sqlite3_connect example_env = None
   \<and> execute example_env CLEAR_COMPLETED_JOBS
        [SqlText (JobStatus_value COMPLETED), SqlInt 1] sample_db = None
   \<and> clear_completed_jobs example_env 1 sample_db
       = Inr (2, sample_db
           \<lparr>events := [\<lparr>row_id = 2, ev_job_id = ''job-2'', ev_timestamp = ''2024-01-01'',
                        ev_type = ''start'', payload_json = Some ''{}''\<rparr>],
            jobs := [job_to_row ''{}'' (sample_job ''job-2'' COMPLETED (Some ''2024-01-05'')),
                     job_to_row ''{}'' (sample_job ''job-3'' PENDING None)]\<rparr>)"
proof -
  have keys: "distinct (map row_job_id (jobs sample_db))"
    by (simp add: sample_db_def job_to_row_def sample_job_def)
  have rows: "map row_job_id (completed_rows sample_db) = [''job-1'', ''job-2'', ''job-4'']"
    by (simp add: completed_rows_def sample_db_def job_to_row_def sample_job_def)
  then have "length (map row_job_id (completed_rows sample_db)) = 3"
    by simp
  then have len: "length (completed_rows sample_db) = 3"
    by simp
  then have more: "1 < length (completed_rows sample_db)"
    by simp
  have conn: "sqlite3_connect example_env = None"
    by (simp add: example_env_def)
  have quiet: "execute example_env CLEAR_COMPLETED_JOBS
      [SqlText (JobStatus_value COMPLETED), SqlInt (int 1)] sample_db = None"
    by (simp add: example_env_def execute_def int64_def)
  have fits: "length (completed_rows sample_db) - 1 \<le> max_variable_number example_env"
    by (simp add: len example_env_def)
  from clear_completed_jobs_keeps_latest [OF keys more conn quiet] fits
  obtain db' and gone :: "job_row list" where
    run: "clear_completed_jobs example_env (int 1) sample_db
        = Inr (int (length (completed_rows sample_db) - 1), db')"
    by blast
  have result: "clear_completed_jobs example_env 1 sample_db
       = Inr (2, sample_db
           \<lparr>events := [\<lparr>row_id = 2, ev_job_id = ''job-2'', ev_timestamp = ''2024-01-01'',
                        ev_type = ''start'', payload_json = Some ''{}''\<rparr>],
            jobs := [job_to_row ''{}'' (sample_job ''job-2'' COMPLETED (Some ''2024-01-05'')),
                     job_to_row ''{}'' (sample_job ''job-3'' PENDING None)]\<rparr>)"
    by (simp add: clear_completed_jobs_def select_completed_def sql_offset_def
        order_by_desc_def sample_db_def job_to_row_def sample_job_def Let_def
        example_env_def execute_def int64_def)
  show ?thesis
    using keys rows conn quiet result run by simp
qed

section \<open>Properties of the scheduler\<close>

text \<open>
  C6. After \<open>schedule_job\<close> succeeds on one scheduler, \<open>get_all_jobs\<close> on a scheduler
  freshly made for the same database path returns a list that holds the job, once: the
  scheduled jobs live in the persisted table, not in the instance.
\<close>

theorem scheduled_job_persists:
  assumes "schedule_job policy scheduler job stores = (Inr jid, stores', emitted)"
    and "new_scheduler (db_path scheduler) stores' = (fresh, stores'')"
  shows "job \<in> set (get_all_jobs fresh stores'')
     \<and> filter (\<lambda>j. sched_job_id j = sched_job_id job) (get_all_jobs fresh stores'') = [job]
     \<and> jid = sched_job_id job
     \<and> emitted = [(''SCHEDULED'', jid)]
     \<and> running fresh = False"
proof -
  let ?rows = "table_of stores (db_path scheduler)"
  from assms(1) have stored: "stores' = stores(db_path scheduler \<mapsto>
      filter (\<lambda>j. sched_job_id j \<noteq> sched_job_id job) ?rows @ [job])"
    and jid: "jid = sched_job_id job" and ev: "emitted = [(''SCHEDULED'', sched_job_id job)]"
    by (auto simp add: schedule_job_def Let_def split: if_splits)
  from assms(2) have fresh: "fresh = \<lparr>db_path = db_path scheduler, running = False\<rparr>"
    and kept: "stores'' = stores'(db_path scheduler \<mapsto> table_of stores' (db_path scheduler))"
    by (auto simp add: new_scheduler_def)
  have "get_all_jobs fresh stores''
      = filter (\<lambda>j. sched_job_id j \<noteq> sched_job_id job) ?rows @ [job]"
    by (simp add: get_all_jobs_def fresh kept stored table_of_def)
  then show ?thesis
    using jid ev fresh by simp
qed

theorem scheduled_job_persists_witness:
  "fst after_schedule = Inr ''test-persist''
   \<and> db_path (fst scheduler2) = db_path (fst scheduler1)
   \<and> get_all_jobs (fst scheduler2) (snd scheduler2) = [persist_job]"
proof -
  have run: "schedule_job Upsert (fst scheduler1) persist_job (snd scheduler1)
      = (Inr ''test-persist'', fst (snd after_schedule), snd (snd after_schedule))"
    by (simp add: after_schedule_def schedule_job_def persist_job_def Let_def)
  have again: "new_scheduler (db_path (fst scheduler1)) (fst (snd after_schedule))
      = (fst scheduler2, snd scheduler2)"
    by (simp add: scheduler2_def scheduler1_def new_scheduler_def)
  have path: "db_path (fst scheduler2) = db_path (fst scheduler1)"
    by (simp add: scheduler2_def scheduler1_def new_scheduler_def)
  from scheduled_job_persists [OF run again]
  have "filter (\<lambda>j. sched_job_id j = sched_job_id persist_job)
      (get_all_jobs (fst scheduler2) (snd scheduler2)) = [persist_job]"
    by simp
  moreover have "get_all_jobs (fst scheduler2) (snd scheduler2) = [persist_job]"
    by (simp add: get_all_jobs_def scheduler2_def scheduler1_def after_schedule_def
        new_scheduler_def schedule_job_def table_of_def persist_job_def Let_def)
  moreover have "fst after_schedule = Inr ''test-persist''"
    by (simp add: after_schedule_def schedule_job_def persist_job_def Let_def)
  ultimately show ?thesis
    using path by simp
qed

end
